theory Spec2Isabelle
  imports Complex_Main "HOL-Library.AList"
begin

section \<open>Strings\<close>

text \<open>
  Python strings are modelled as \<open>string\<close>.  \<open>str.lower\<close> is modelled on the ASCII
  letters; every prefix and status literal the exporter compares against is ASCII.
\<close>

definition lower_char :: "char \<Rightarrow> char" where
  "lower_char c =
     (case map_of (zip ''ABCDEFGHIJKLMNOPQRSTUVWXYZ'' ''abcdefghijklmnopqrstuvwxyz'') c of
        None \<Rightarrow> c
      | Some l \<Rightarrow> l)"

definition lower :: "string \<Rightarrow> string" where
  "lower s = map lower_char s"

definition startswith :: "string \<Rightarrow> string \<Rightarrow> bool" where
  "startswith s p = (take (length p) s = p)"

section \<open>Endpoint resolver\<close>

subsection \<open>Candidate list\<close>

definition canonical_unix_path :: "string \<Rightarrow> string" where
  "canonical_unix_path url =
     (if url = [] then url
      else let low = lower url in
        if startswith low ''http+docker://'' \<or> startswith low ''http+unix://''
        then ''unix:///var/run/docker.sock''
        else if startswith low ''npipe://'' then ''npipe:////./pipe/docker_engine''
        else url)"

text \<open>
  The body of the \<open>for c in DEFAULT_SOCKET_CANDIDATES\<close> loop of \<open>create_docker_client\<close>:
  the normalised candidate is appended unless it is already in the list.
\<close>

definition add_candidate :: "string list \<Rightarrow> string \<Rightarrow> string list" where
  "add_candidate candidates c =
     (let c_norm = canonical_unix_path c
      in if c_norm \<notin> set candidates then candidates @ [c_norm] else candidates)"

text \<open>
  The candidates built from the override and the defaults, before the final sentinel.
  \<open>ENV_DOCKER_HOST\<close> and \<open>DEFAULT_SOCKET_CANDIDATES\<close> are module-level values read from
  the process environment; they are parameters here.
\<close>

definition socket_candidates :: "string \<Rightarrow> string list \<Rightarrow> string list" where
  "socket_candidates env_docker_host default_socket_candidates =
     foldl add_candidate
       (if env_docker_host \<noteq> [] then [canonical_unix_path env_docker_host] else [])
       default_socket_candidates"

definition candidates_of :: "string \<Rightarrow> string list \<Rightarrow> string list" where
  "candidates_of env_docker_host default_socket_candidates =
     socket_candidates env_docker_host default_socket_candidates @ [''from_env'']"

text \<open>First-occurrence deduplication, as a specification of the loop above.\<close>

fun dedup_first :: "'a list \<Rightarrow> 'a list" where
  "dedup_first [] = []"
| "dedup_first (x # xs) = x # filter (\<lambda>y. y \<noteq> x) (dedup_first xs)"

subsection \<open>Trying the candidates\<close>

text \<open>
  The world the resolver talks to: the file system (\<open>os.path.exists\<close>), the client
  constructors \<open>docker.DockerClient(base_url=...)\<close> and \<open>docker.from_env()\<close>, the liveness
  call \<open>cli.version()\<close> and the attribute \<open>cli.api.base_url\<close>.  A call that raises
  yields \<open>str(e)\<close>.
\<close>

record 'c docker_world =
  path_exists :: "string \<Rightarrow> bool"
  docker_client :: "string \<Rightarrow> string + 'c"
  from_env :: "string + 'c"
  version_error :: "'c \<Rightarrow> string option"
  api_base_url :: "'c \<Rightarrow> string option"

datatype py_exception = DockerException string | OtherException string

definition file_exists_for_unix :: "'c docker_world \<Rightarrow> string \<Rightarrow> bool" where
  "file_exists_for_unix w url =
     (if \<not> startswith url ''unix://'' then False
      else path_exists w (drop (length ''unix://'') url))"

text \<open>One iteration of the \<open>for base in candidates\<close> loop.\<close>

datatype 'c attempt = Skipped | Failed string | Connected 'c string

definition liveness :: "'c docker_world \<Rightarrow> 'c \<Rightarrow> string \<Rightarrow> 'c attempt" where
  "liveness w cli base_used =
     (case version_error w cli of
        Some e \<Rightarrow> Failed e
      | None \<Rightarrow> Connected cli base_used)"

definition try_base :: "'c docker_world \<Rightarrow> string \<Rightarrow> 'c attempt" where
  "try_base w base =
     (if base = ''from_env'' then
        (case from_env w of
           Inl e \<Rightarrow> Failed e
         | Inr cli \<Rightarrow>
             liveness w cli (case api_base_url w cli of Some u \<Rightarrow> u | None \<Rightarrow> ''from_env''))
      else if startswith base ''unix://'' \<and> \<not> file_exists_for_unix w base then Skipped
      else
        (case docker_client w base of
           Inl e \<Rightarrow> Failed e
         | Inr cli \<Rightarrow> liveness w cli base))"

text \<open>
  What a call of \<open>create_docker_client\<close> leaves behind: the lines written by \<open>log\<close>, the
  candidates for which a client constructor was called (in call order), the \<open>errors\<close>
  dictionary (insertion-ordered, one value per key), and the value returned or the
  exception raised.
\<close>

record 'c resolution =
  log_lines :: "string list"
  attempted :: "string list"
  errors :: "(string \<times> string) list"
  outcome :: "py_exception + ('c \<times> string)"

definition tried_line :: "string \<times> string \<Rightarrow> string" where
  "tried_line kv = ''[error] Tried '' @ fst kv @ '': '' @ snd kv"

fun try_candidates ::
  "'c docker_world \<Rightarrow> string list \<Rightarrow> string list \<Rightarrow> (string \<times> string) list \<Rightarrow> 'c resolution"
where
  "try_candidates w [] att errs =
     \<lparr>log_lines = map tried_line errs, attempted = att, errors = errs,
      outcome = Inl (DockerException ''Unable to connect to Docker daemon via any known method.'')\<rparr>"
| "try_candidates w (base # rest) att errs =
     (case try_base w base of
        Skipped \<Rightarrow> try_candidates w rest att errs
      | Failed e \<Rightarrow> try_candidates w rest (att @ [base]) (AList.update base e errs)
      | Connected cli base_used \<Rightarrow>
          \<lparr>log_lines = [''[info] Connected to Docker via '' @ base_used],
           attempted = att @ [base], errors = errs, outcome = Inr (cli, base_used)\<rparr>)"

definition create_docker_client ::
  "string \<Rightarrow> string list \<Rightarrow> 'c docker_world \<Rightarrow> 'c resolution" where
  "create_docker_client env_docker_host default_socket_candidates w =
     try_candidates w (candidates_of env_docker_host default_socket_candidates) [] []"

text \<open>No candidate of the list connects.\<close>

definition no_success :: "'c docker_world \<Rightarrow> string list \<Rightarrow> bool" where
  "no_success w cs =
     list_all (\<lambda>b. case try_base w b of Connected cli u \<Rightarrow> False | _ \<Rightarrow> True) cs"

text \<open>
  Two worlds in which no socket exists and the environment-derived client fails, for two
  different reasons.
\<close>

definition refused_world :: "unit docker_world" where
  "refused_world =
     \<lparr>path_exists = (\<lambda>p. False),
      docker_client = (\<lambda>b. Inl ''unused''),
      from_env = Inl ''connection refused'',
      version_error = (\<lambda>c. None),
      api_base_url = (\<lambda>c. None)\<rparr>"

definition denied_world :: "unit docker_world" where
  "denied_world =
     \<lparr>path_exists = (\<lambda>p. False),
      docker_client = (\<lambda>b. Inl ''unused''),
      from_env = Inl ''permission denied'',
      version_error = (\<lambda>c. None),
      api_base_url = (\<lambda>c. None)\<rparr>"

text \<open>A world used to exercise the resolver: one socket exists but refuses the client.\<close>

definition sample_world :: "unit docker_world" where
  "sample_world =
     \<lparr>path_exists = (\<lambda>p. p = ''/var/run/docker.sock''),
      docker_client = (\<lambda>b. Inl ''permission denied''),
      from_env = Inl ''connection refused'',
      version_error = (\<lambda>c. None),
      api_base_url = (\<lambda>c. None)\<rparr>"

section \<open>Container snapshots\<close>

text \<open>
  The values found in \<open>c.attrs\<close> (decoded JSON).  Floats are modelled as reals: rounding
  and non-finite values are outside the model.  A dictionary is an association list read
  with \<open>map_of\<close>.
\<close>

datatype pyval =
    PNone
  | PBool bool
  | PInt int
  | PFloat real
  | PStr string
  | PList "pyval list"
  | PDict "(string \<times> pyval) list"

fun truthy :: "pyval \<Rightarrow> bool" where
  "truthy PNone = False"
| "truthy (PBool b) = b"
| "truthy (PInt n) = (n \<noteq> 0)"
| "truthy (PFloat x) = (x \<noteq> 0)"
| "truthy (PStr s) = (s \<noteq> [])"
| "truthy (PList l) = (l \<noteq> [])"
| "truthy (PDict d) = (d \<noteq> [])"

text \<open>\<open>a or b\<close>.\<close>

definition py_or :: "pyval \<Rightarrow> pyval \<Rightarrow> pyval" where
  "py_or a b = (if truthy a then a else b)"

fun type_name :: "pyval \<Rightarrow> string" where
  "type_name PNone = ''NoneType''"
| "type_name (PBool b) = ''bool''"
| "type_name (PInt n) = ''int''"
| "type_name (PFloat x) = ''float''"
| "type_name (PStr s) = ''str''"
| "type_name (PList l) = ''list''"
| "type_name (PDict d) = ''dict''"

text \<open>
  What the per-container \<open>try\<close> block can catch: an exception raised by the runtime
  (\<open>c.reload()\<close>, \<open>c.image\<close>), carrying its message, or an \<open>AttributeError\<close> for a
  method looked up on a value of the wrong type (the type's name, the attribute).
\<close>

datatype container_error = Raised string | AttributeError string string

text \<open>\<open>d.get(k)\<close>: the value, \<open>None\<close> for a missing key, an error when \<open>d\<close> is no dictionary.\<close>

fun dict_get :: "pyval \<Rightarrow> string \<Rightarrow> container_error + pyval" where
  "dict_get (PDict d) k = Inr (case map_of d k of None \<Rightarrow> PNone | Some v \<Rightarrow> v)"
| "dict_get v k = Inl (AttributeError (type_name v) ''get'')"

text \<open>\<open>v.lower()\<close>.\<close>

fun str_lower :: "pyval \<Rightarrow> container_error + string" where
  "str_lower (PStr s) = Inr (lower s)"
| "str_lower v = Inl (AttributeError (type_name v) ''lower'')"

section \<open>Start timestamps\<close>

text \<open>
  A \<open>datetime\<close> object: the wall-clock fields and the UTC offset of its \<open>tzinfo\<close> in
  seconds (\<open>None\<close> for a naive object).
\<close>

record datetime =
  year :: int
  month :: int
  day :: int
  hour :: int
  minute :: int
  second :: int
  microsecond :: int
  utcoffset :: "real option"

text \<open>
  The two standard-library parsers the exporter calls.  They are parameters of the model:
  \<open>float(s)\<close> on a string and \<open>datetime.fromisoformat(s)\<close>, with \<open>None\<close> for a raised
  \<open>ValueError\<close>.
\<close>

record python_lib =
  str_to_float :: "string \<Rightarrow> real option"
  fromisoformat :: "string \<Rightarrow> datetime option"

text \<open>The proleptic Gregorian day count of the standard library.\<close>

definition is_leap :: "int \<Rightarrow> bool" where
  "is_leap y = (y mod 4 = 0 \<and> (y mod 100 \<noteq> 0 \<or> y mod 400 = 0))"

definition days_before_year :: "int \<Rightarrow> int" where
  "days_before_year y = (y - 1) * 365 + (y - 1) div 4 - (y - 1) div 100 + (y - 1) div 400"

definition month_lengths :: "int \<Rightarrow> int list" where
  "month_lengths y = [31, if is_leap y then 29 else 28, 31, 30, 31, 30, 31, 31, 30, 31, 30, 31]"

definition days_before_month :: "int \<Rightarrow> int \<Rightarrow> int" where
  "days_before_month y m = sum_list (take (nat (m - 1)) (month_lengths y))"

definition ymd2ord :: "int \<Rightarrow> int \<Rightarrow> int \<Rightarrow> int" where
  "ymd2ord y m d = days_before_year y + days_before_month y m + d"

text \<open>Seconds from 1970-01-01T00:00:00 to the wall-clock fields.\<close>

definition wall_seconds :: "datetime \<Rightarrow> real" where
  "wall_seconds dt =
     real_of_int
       ((ymd2ord (year dt) (month dt) (day dt) - ymd2ord 1970 1 1) * 86400
        + hour dt * 3600 + minute dt * 60 + second dt)
     + real_of_int (microsecond dt) / 1000000"

text \<open>
  \<open>dt.timestamp()\<close> of an aware object: the wall-clock seconds minus the offset.  (A naive
  object would be read in local time; \<open>parse_started_at\<close> never asks for that.)
\<close>

definition timestamp :: "datetime \<Rightarrow> real" where
  "timestamp dt = wall_seconds dt - (case utcoffset dt of None \<Rightarrow> 0 | Some off \<Rightarrow> off)"

text \<open>\<open>dt.replace(tzinfo=timezone.utc)\<close>.\<close>

definition replace_tzinfo_utc :: "datetime \<Rightarrow> datetime" where
  "replace_tzinfo_utc dt = dt\<lparr>utcoffset := Some 0\<rparr>"

text \<open>\<open>s.rstrip("Z")\<close>.\<close>

definition rstrip_Z :: "string \<Rightarrow> string" where
  "rstrip_Z s = rev (dropWhile (\<lambda>c. c = CHR ''Z'') (rev s))"

text \<open>
  \<open>head, frac = s.split(".", 1); s = head + "." + frac[:6]\<close> when the string has a dot.
\<close>

definition keep_microseconds :: "string \<Rightarrow> string" where
  "keep_microseconds s =
     (if CHR ''.'' \<in> set s then
        (let head = takeWhile (\<lambda>c. c \<noteq> CHR ''.'') s;
             frac = tl (dropWhile (\<lambda>c. c \<noteq> CHR ''.'') s)
         in head @ ''.'' @ take 6 frac)
      else s)"

definition parse_started_at :: "python_lib \<Rightarrow> string \<Rightarrow> real option" where
  "parse_started_at lib started_at_str =
     (if started_at_str = [] then None
      else
        (case fromisoformat lib (keep_microseconds (rstrip_Z started_at_str)) of
           None \<Rightarrow> None
         | Some dt \<Rightarrow> Some (timestamp (replace_tzinfo_utc dt))))"

text \<open>
  The lines of \<open>scrape_once\<close> that derive the start time from the state: a falsy value
  becomes the empty string, a truthy value that is no string makes \<open>rstrip\<close> fail inside
  the \<open>try\<close> of \<open>parse_started_at\<close>, and \<open>None\<close> becomes \<open>0.0\<close>.
\<close>

definition started_at_of :: "python_lib \<Rightarrow> pyval \<Rightarrow> real" where
  "started_at_of lib v =
     (case (case py_or v (PStr []) of
              PStr s \<Rightarrow> parse_started_at lib s
            | _ \<Rightarrow> None) of
        None \<Rightarrow> 0
      | Some t \<Rightarrow> t)"

subsection \<open>A parser for the documented format\<close>

text \<open>
  An instance of \<open>fromisoformat\<close> for the format documented for Python 3.7 to 3.10,
  \<open>YYYY-MM-DD[*HH[:MM[:SS[.fff[fff]]]][+HH:MM[:SS[.ffffff]]]]\<close>, used to run the model on
  concrete strings.  The properties below that mention \<open>lib\<close> hold for every parser.
\<close>

definition digit_val :: "char \<Rightarrow> int option" where
  "digit_val c = map_of (zip ''0123456789'' [0, 1, 2, 3, 4, 5, 6, 7, 8, 9]) c"

fun digits_val :: "string \<Rightarrow> int \<Rightarrow> int option" where
  "digits_val [] acc = Some acc"
| "digits_val (c # cs) acc =
     (case digit_val c of None \<Rightarrow> None | Some d \<Rightarrow> digits_val cs (10 * acc + d))"

definition parse_int :: "string \<Rightarrow> int option" where
  "parse_int s = (if s = [] then None else digits_val s 0)"

definition parse_isoformat_date :: "string \<Rightarrow> (int \<times> int \<times> int) option" where
  "parse_isoformat_date dtstr =
     (if length dtstr \<noteq> 10 \<or> dtstr ! 4 \<noteq> CHR ''-'' \<or> dtstr ! 7 \<noteq> CHR ''-'' then None
      else
        (case (parse_int (take 4 dtstr), parse_int (take 2 (drop 5 dtstr)),
               parse_int (take 2 (drop 8 dtstr))) of
           (Some y, Some m, Some d) \<Rightarrow> Some (y, m, d)
         | _ \<Rightarrow> None))"

text \<open>The fraction after \<open>HH:MM:SS\<close>: nothing, or a dot and three or six digits.\<close>

definition parse_fraction :: "string \<Rightarrow> int option" where
  "parse_fraction r =
     (if r = [] then Some 0
      else if hd r \<noteq> CHR ''.'' then None
      else if length (tl r) = 3 then map_option (\<lambda>n. n * 1000) (parse_int (tl r))
      else if length (tl r) = 6 then parse_int (tl r)
      else None)"

text \<open>\<open>HH[:MM[:SS[.fff[fff]]]]\<close>, as hours, minutes, seconds and microseconds.\<close>

definition parse_hh_mm_ss_ff :: "string \<Rightarrow> (int \<times> int \<times> int \<times> int) option" where
  "parse_hh_mm_ss_ff tstr =
     (case parse_int (take 2 tstr) of
        None \<Rightarrow> None
      | Some h \<Rightarrow>
          if length tstr < 2 then None
          else if length tstr = 2 then Some (h, 0, 0, 0)
          else if tstr ! 2 \<noteq> CHR '':'' then None
          else
            (case parse_int (take 2 (drop 3 tstr)) of
               None \<Rightarrow> None
             | Some m \<Rightarrow>
                 if length tstr < 5 then None
                 else if length tstr = 5 then Some (h, m, 0, 0)
                 else if tstr ! 5 \<noteq> CHR '':'' then None
                 else
                   (case parse_int (take 2 (drop 6 tstr)) of
                      None \<Rightarrow> None
                    | Some s \<Rightarrow>
                        if length tstr < 8 then None
                        else map_option (\<lambda>f. (h, m, s, f)) (parse_fraction (drop 8 tstr)))))"

definition is_sign :: "char \<Rightarrow> bool" where
  "is_sign c = (c = CHR ''+'' \<or> c = CHR ''-'')"

text \<open>The time part and the offset in seconds, if one is written.\<close>

definition parse_isoformat_time :: "string \<Rightarrow> ((int \<times> int \<times> int \<times> int) \<times> real option) option" where
  "parse_isoformat_time tstr =
     (let timestr = takeWhile (\<lambda>c. \<not> is_sign c) tstr;
          rest = dropWhile (\<lambda>c. \<not> is_sign c) tstr
      in case parse_hh_mm_ss_ff timestr of
           None \<Rightarrow> None
         | Some tc \<Rightarrow>
             if rest = [] then Some (tc, None)
             else if length (tl rest) \<notin> {5, 8, 15} then None
             else
               (case parse_hh_mm_ss_ff (tl rest) of
                  None \<Rightarrow> None
                | Some (h, m, s, f) \<Rightarrow>
                    Some (tc, Some ((if hd rest = CHR ''-'' then - 1 else 1)
                      * (real_of_int (h * 3600 + m * 60 + s) + real_of_int f / 1000000)))))"

text \<open>The range checks of the \<open>datetime\<close> constructor.\<close>

definition valid_datetime :: "datetime \<Rightarrow> bool" where
  "valid_datetime dt =
     (1 \<le> year dt \<and> year dt \<le> 9999 \<and> 1 \<le> month dt \<and> month dt \<le> 12
      \<and> 1 \<le> day dt \<and> day dt \<le> month_lengths (year dt) ! nat (month dt - 1)
      \<and> 0 \<le> hour dt \<and> hour dt \<le> 23 \<and> 0 \<le> minute dt \<and> minute dt \<le> 59
      \<and> 0 \<le> second dt \<and> second dt \<le> 59
      \<and> (case utcoffset dt of None \<Rightarrow> True | Some off \<Rightarrow> - 86400 < off \<and> off < 86400))"

definition iso_fromisoformat :: "string \<Rightarrow> datetime option" where
  "iso_fromisoformat date_string =
     (case parse_isoformat_date (take 10 date_string) of
        None \<Rightarrow> None
      | Some (y, m, d) \<Rightarrow>
          (case (if drop 11 date_string = [] then Some ((0, 0, 0, 0), None)
                 else parse_isoformat_time (drop 11 date_string)) of
             None \<Rightarrow> None
           | Some ((h, mi, s, us), tz) \<Rightarrow>
               (let dt = \<lparr>year = y, month = m, day = d, hour = h, minute = mi, second = s,
                          microsecond = us, utcoffset = tz\<rparr>
                in if valid_datetime dt then Some dt else None)))"

text \<open>Python's \<open>float\<close> on a string of decimal digits; other strings are refused here.\<close>

definition sample_lib :: python_lib where
  "sample_lib =
     \<lparr>str_to_float = (\<lambda>s. map_option real_of_int (parse_int s)),
      fromisoformat = iso_fromisoformat\<rparr>"

section \<open>State extractor\<close>

text \<open>
  A container object of the runtime library, as far as \<open>scrape_once\<close> reads it:
  whether \<open>c.reload()\<close> raises (with its message), the value of the property \<open>c.image\<close>
  (an exception, \<open>None\<close>, or an image with its tags and short identifier), the
  property \<open>c.short_id\<close>, the property \<open>c.name\<close> (its string, or \<open>None\<close> when reading
  it raises \<open>AttributeError\<close>, the one exception that \<open>getattr(c, 'name', '?')\<close>
  absorbs), and \<open>c.attrs\<close> after the reload.
\<close>

record docker_image =
  tags :: "string list"
  image_short_id :: string

record container =
  reload_raises :: "string option"
  image_of :: "string + docker_image option"
  short_id :: string
  name :: "string option"
  attrs :: pyval

record facts =
  f_name :: string
  f_img :: string
  f_cid :: string
  num :: real
  status :: string
  running :: real
  restart_count :: real
  started_at :: real

definition status_to_num :: "string \<Rightarrow> bool \<Rightarrow> real" where
  "status_to_num st has_check =
     (if \<not> has_check then 1
      else
        (case map_of [(''healthy'', 1), (''starting'', 1 / 2), (''unhealthy'', 0)] st of
           None \<Rightarrow> 0
         | Some v \<Rightarrow> v))"

text \<open>
  \<open>(c.image.tags[0] if c.image and c.image.tags else getattr(c.image, "short_id",
  "unknown")) or "unknown"\<close>.
\<close>

definition image_label :: "docker_image option \<Rightarrow> string" where
  "image_label im =
     (let v = (case im of
                 None \<Rightarrow> ''unknown''
               | Some i \<Rightarrow> if tags i \<noteq> [] then hd (tags i) else image_short_id i)
      in if v \<noteq> [] then v else ''unknown'')"

text \<open>\<open>d.get(k, default)\<close>.\<close>

fun dict_get_default :: "pyval \<Rightarrow> string \<Rightarrow> pyval \<Rightarrow> container_error + pyval" where
  "dict_get_default (PDict d) k dflt = Inr (case map_of d k of None \<Rightarrow> dflt | Some v \<Rightarrow> v)"
| "dict_get_default v k dflt = Inl (AttributeError (type_name v) ''get'')"

text \<open>
  \<open>float(v)\<close>, with \<open>None\<close> for a raised exception: a \<open>TypeError\<close> for values that are
  neither numbers nor strings, a \<open>ValueError\<close> for a string that is no number, an
  \<open>OverflowError\<close> for an integer beyond the range of a double.
\<close>

definition float_int_bound :: int where
  "float_int_bound = 2 ^ 1024 - 2 ^ 970"

fun py_float :: "python_lib \<Rightarrow> pyval \<Rightarrow> real option" where
  "py_float lib (PBool b) = Some (if b then 1 else 0)"
| "py_float lib (PInt n) =
     (if \<bar>n\<bar> < float_int_bound then Some (real_of_int n) else None)"
| "py_float lib (PFloat x) = Some x"
| "py_float lib (PStr s) = str_to_float lib s"
| "py_float lib v = None"

text \<open>
  The restart count from the top-level value and the value nested in the state:
  \<open>rc = attrs.get("RestartCount"); if rc is None: rc = st.get("RestartCount")\<close>, then
  \<open>float(rc or 0)\<close> with \<open>0.0\<close> for any exception.
\<close>

definition selected_restart :: "pyval \<Rightarrow> pyval \<Rightarrow> pyval" where
  "selected_restart rc_top rc_nested = (if rc_top = PNone then rc_nested else rc_top)"

definition restart_count_of :: "python_lib \<Rightarrow> pyval \<Rightarrow> pyval \<Rightarrow> real" where
  "restart_count_of lib rc_top rc_nested =
     (case py_float lib (py_or (selected_restart rc_top rc_nested) (PInt 0)) of
        None \<Rightarrow> 0
      | Some x \<Rightarrow> x)"

text \<open>The health score and category from the value of \<open>st.get("Health")\<close>.\<close>

definition health_of :: "pyval \<Rightarrow> container_error + (real \<times> string)" where
  "health_of health =
     (if truthy health then
        (case dict_get health ''Status'' of
           Inl e \<Rightarrow> Inl e
         | Inr sv \<Rightarrow>
             (case str_lower (py_or sv (PStr ''unknown'')) of
                Inl e \<Rightarrow> Inl e
              | Inr st \<Rightarrow>
                  Inr (status_to_num st True,
                       if st \<notin> {''healthy'', ''starting'', ''unhealthy''} then ''none'' else st)))
      else Inr (status_to_num ''none'' False, ''none''))"

text \<open>
  The statements of the per-container \<open>try\<close> block up to the first metric update: the
  facts of the container, or the exception that the block catches.
\<close>

definition derive :: "python_lib \<Rightarrow> container \<Rightarrow> container_error + facts" where
  "derive lib c =
     (case reload_raises c of
        Some m \<Rightarrow> Inl (Raised m)
      | None \<Rightarrow>
     (case image_of c of
        Inl m \<Rightarrow> Inl (Raised m)
      | Inr im \<Rightarrow>
     (case name c of
        None \<Rightarrow> Inl (AttributeError ''Container'' ''name'')
      | Some nm \<Rightarrow>
     (case dict_get_default (attrs c) ''State'' (PDict []) of
        Inl e \<Rightarrow> Inl e
      | Inr st0 \<Rightarrow>
     (let st = py_or st0 (PDict []) in
     (case dict_get st ''Health'' of
        Inl e \<Rightarrow> Inl e
      | Inr health \<Rightarrow>
     (case dict_get st ''Running'' of
        Inl e \<Rightarrow> Inl e
      | Inr run \<Rightarrow>
     (case dict_get (attrs c) ''RestartCount'' of
        Inl e \<Rightarrow> Inl e
      | Inr rc_top \<Rightarrow>
     (case dict_get st ''RestartCount'' of
        Inl e \<Rightarrow> Inl e
      | Inr rc_nested \<Rightarrow>
     (case dict_get st ''StartedAt'' of
        Inl e \<Rightarrow> Inl e
      | Inr sa \<Rightarrow>
     (case health_of health of
        Inl e \<Rightarrow> Inl e
      | Inr (n, stat) \<Rightarrow>
          Inr \<lparr>f_name = nm, f_img = image_label im, f_cid = short_id c,
               num = n, status = stat,
               running = (if truthy run then 1 else 0),
               restart_count = restart_count_of lib rc_top rc_nested,
               started_at = started_at_of lib sa\<rparr>)))))))))))"

section \<open>Series registry\<close>

type_synonym labels = "string \<times> string \<times> string \<times> string"
type_synonym status_labels = "string \<times> string \<times> string \<times> string \<times> string"

text \<open>
  The five gauges, each a map from label tuples to values (a tuple is published when it is
  in the domain), and the five module-level sets of the tuples of the previous pass.
\<close>

record registry =
  g_health :: "labels \<rightharpoonup> real"
  g_status :: "status_labels \<rightharpoonup> real"
  g_running :: "labels \<rightharpoonup> real"
  g_restart :: "labels \<rightharpoonup> real"
  g_started_at :: "labels \<rightharpoonup> real"
  last_h :: "labels set"
  last_s :: "status_labels set"
  last_rn :: "labels set"
  last_rc :: "labels set"
  last_sa :: "labels set"

definition empty_registry :: registry where
  "empty_registry =
     \<lparr>g_health = Map.empty, g_status = Map.empty, g_running = Map.empty,
      g_restart = Map.empty, g_started_at = Map.empty,
      last_h = {}, last_s = {}, last_rn = {}, last_rc = {}, last_sa = {}\<rparr>"

definition statuses :: "string list" where
  "statuses = [''healthy'', ''starting'', ''unhealthy'', ''none'']"

definition status_rows :: "labels \<Rightarrow> status_labels set" where
  "status_rows l =
     (case l of (cname, img, cid, host) \<Rightarrow>
        {(cname, img, cid, host, ''healthy''),
         (cname, img, cid, host, ''starting''),
         (cname, img, cid, host, ''unhealthy''),
         (cname, img, cid, host, ''none'')})"

definition set_one_hot :: "registry \<Rightarrow> labels \<Rightarrow> string \<Rightarrow> registry" where
  "set_one_hot r l status_value =
     (case l of (cname, img, cid, host) \<Rightarrow>
        r\<lparr>g_status :=
             foldl (\<lambda>m s. m((cname, img, cid, host, s) \<mapsto> (if s = status_value then 1 else 0)))
               (g_status r) statuses,
          last_s := last_s r \<union> status_rows l\<rparr>)"

text \<open>The state threaded through the loop over the containers of one pass.\<close>

record scrape_state =
  reg :: registry
  now_h :: "labels set"
  now_s :: "status_labels set"
  now_rn :: "labels set"
  now_rc :: "labels set"
  now_sa :: "labels set"
  warnings :: "string list"

definition labels_of :: "string \<Rightarrow> facts \<Rightarrow> labels" where
  "labels_of host f = (f_name f, f_img f, f_cid f, host)"

text \<open>The five metric updates that end the \<open>try\<close> block.\<close>

definition publish :: "string \<Rightarrow> facts \<Rightarrow> scrape_state \<Rightarrow> scrape_state" where
  "publish host f st =
     (let l = labels_of host f;
          r1 = (reg st)\<lparr>g_health := (g_health (reg st))(l \<mapsto> num f)\<rparr>;
          r2 = set_one_hot r1 l (status f);
          r3 = r2\<lparr>g_running := (g_running r2)(l \<mapsto> running f)\<rparr>;
          r4 = r3\<lparr>g_restart := (g_restart r3)(l \<mapsto> restart_count f)\<rparr>;
          r5 = r4\<lparr>g_started_at := (g_started_at r4)(l \<mapsto> started_at f)\<rparr>
      in st\<lparr>reg := r5,
            now_h := insert l (now_h st),
            now_s := now_s st \<union> status_rows l,
            now_rn := insert l (now_rn st),
            now_rc := insert l (now_rc st),
            now_sa := insert l (now_sa st)\<rparr>)"

definition error_text :: "container_error \<Rightarrow> string" where
  "error_text e =
     (case e of
        Raised m \<Rightarrow> m
      | AttributeError ty a \<Rightarrow>
          [CHR 0x27] @ ty @ [CHR 0x27] @ '' object has no attribute '' @ [CHR 0x27] @ a @ [CHR 0x27])"

definition warn_line :: "string \<Rightarrow> container_error \<Rightarrow> string" where
  "warn_line nm e = ''[warn] container '' @ nm @ '': '' @ error_text e"

text \<open>\<open>getattr(c, 'name', '?')\<close>.\<close>

definition best_known_name :: "container \<Rightarrow> string" where
  "best_known_name c = (case name c of None \<Rightarrow> ''?'' | Some nm \<Rightarrow> nm)"

text \<open>One iteration of \<open>for c in containers\<close>.\<close>

definition scrape_container :: "python_lib \<Rightarrow> string \<Rightarrow> scrape_state \<Rightarrow> container \<Rightarrow> scrape_state" where
  "scrape_container lib host st c =
     (case derive lib c of
        Inl e \<Rightarrow> st\<lparr>warnings := warnings st @ [warn_line (best_known_name c) e]\<rparr>
      | Inr f \<Rightarrow> publish host f st)"

text \<open>
  \<open>for labels in last_set - now_set: metric.remove(*labels)\<close>; removing a tuple that is
  not published changes nothing.
\<close>

definition remove_stale :: "('k \<rightharpoonup> real) \<Rightarrow> 'k set \<Rightarrow> 'k set \<Rightarrow> ('k \<rightharpoonup> real)" where
  "remove_stale metric last_set now_set =
     (\<lambda>k. if k \<in> last_set - now_set then None else metric k)"

definition reconcile :: "scrape_state \<Rightarrow> registry" where
  "reconcile st =
     (let r = reg st
      in \<lparr>g_health = remove_stale (g_health r) (last_h r) (now_h st),
          g_status = remove_stale (g_status r) (last_s r) (now_s st),
          g_running = remove_stale (g_running r) (last_rn r) (now_rn st),
          g_restart = remove_stale (g_restart r) (last_rc r) (now_rc st),
          g_started_at = remove_stale (g_started_at r) (last_sa r) (now_sa st),
          last_h = now_h st, last_s = now_s st, last_rn = now_rn st,
          last_rc = now_rc st, last_sa = now_sa st\<rparr>)"

definition scrape_loop :: "python_lib \<Rightarrow> string \<Rightarrow> container list \<Rightarrow> registry \<Rightarrow> scrape_state" where
  "scrape_loop lib host containers r =
     foldl (scrape_container lib host)
       \<lparr>reg = r, now_h = {}, now_s = {}, now_rn = {}, now_rc = {}, now_sa = {}, warnings = []\<rparr>
       containers"

text \<open>
  One pass.  \<open>listing\<close> is the result of \<open>client.containers.list(all=True)\<close>; when it
  raises, the pass raises before anything is touched.  The result is the new registry and
  the warnings logged.
\<close>

definition scrape_once ::
  "python_lib \<Rightarrow> string \<Rightarrow> py_exception + container list \<Rightarrow> registry
   \<Rightarrow> py_exception + (registry \<times> string list)" where
  "scrape_once lib host listing r =
     (case listing of
        Inl ex \<Rightarrow> Inl ex
      | Inr containers \<Rightarrow>
          (let st = scrape_loop lib host containers r
           in Inr (reconcile st, warnings st)))"

section \<open>Poll loop\<close>

record config =
  interval :: real
  env_docker_host :: string
  default_socket_candidates :: "string list"
  lib_of :: python_lib

text \<open>What one iteration of \<open>while True\<close> meets outside the process.\<close>

record 'c tick =
  world :: "'c docker_world"
  hostname :: string
  containers_list :: "'c \<Rightarrow> py_exception + container list"

record 'c loop_state =
  client :: "'c option"
  backoff :: real
  registry_of :: registry

definition initial_state :: "'c loop_state" where
  "initial_state = \<lparr>client = None, backoff = 1, registry_of = empty_registry\<rparr>"

text \<open>
  The \<open>try\<close> block of the loop: the client, the backoff and the registry when the block
  is left, and the exception it is left with, if any.
\<close>

definition try_block ::
  "config \<Rightarrow> 'c tick \<Rightarrow> 'c loop_state
   \<Rightarrow> 'c option \<times> real \<times> registry \<times> py_exception option" where
  "try_block cfg t s =
     (case (case client s of
              Some c \<Rightarrow> Inr (c, backoff s)
            | None \<Rightarrow>
                (case outcome (create_docker_client (env_docker_host cfg)
                                 (default_socket_candidates cfg) (world t)) of
                   Inl ex \<Rightarrow> Inl ex
                 | Inr (c, used) \<Rightarrow> Inr (c, 1))) of
        Inl ex \<Rightarrow> (None, backoff s, registry_of s, Some ex)
      | Inr (c, b) \<Rightarrow>
          (case scrape_once (lib_of cfg) (hostname t) (containers_list t c) (registry_of s) of
             Inl ex \<Rightarrow> (Some c, b, registry_of s, Some ex)
           | Inr (r, warns) \<Rightarrow> (Some c, b, r, None)))"

text \<open>The two \<open>except\<close> clauses.\<close>

definition after_except :: "py_exception option \<Rightarrow> 'c option \<Rightarrow> 'c option" where
  "after_except ex cl =
     (case ex of
        None \<Rightarrow> cl
      | Some (DockerException m) \<Rightarrow> None
      | Some (OtherException m) \<Rightarrow> cl)"

text \<open>One iteration: the next state and the duration passed to \<open>time.sleep\<close>.\<close>

definition main_step :: "config \<Rightarrow> 'c tick \<Rightarrow> 'c loop_state \<Rightarrow> 'c loop_state \<times> real" where
  "main_step cfg t s =
     (case try_block cfg t s of
        (cl0, b, r, ex) \<Rightarrow>
          (let cl = after_except ex cl0
           in (\<lparr>client = cl,
                backoff = (if cl = None then min (b * 2) 30 else b),
                registry_of = r\<rparr>,
               if cl \<noteq> None then interval cfg else min b 30)))"

text \<open>The first iterations of the loop, from the initial state.\<close>

fun main_run :: "config \<Rightarrow> 'c loop_state \<Rightarrow> 'c tick list \<Rightarrow> 'c loop_state" where
  "main_run cfg s [] = s"
| "main_run cfg s (t # ts) = main_run cfg (fst (main_step cfg t s)) ts"

definition resolution_fails :: "config \<Rightarrow> 'c tick \<Rightarrow> 'c loop_state \<Rightarrow> bool" where
  "resolution_fails cfg t s =
     (client s = None
      \<and> isl (outcome (create_docker_client (env_docker_host cfg)
                         (default_socket_candidates cfg) (world t))))"

section \<open>Reading a snapshot, for the statements below\<close>

text \<open>
  The value under a key of a dictionary, \<open>None\<close> when the key is missing; the state
  dictionary of a container as \<open>scrape_once\<close> reads it.
\<close>

definition attr_get :: "pyval \<Rightarrow> string \<Rightarrow> pyval" where
  "attr_get v k =
     (case v of
        PDict d \<Rightarrow> (case map_of d k of None \<Rightarrow> PNone | Some x \<Rightarrow> x)
      | _ \<Rightarrow> PNone)"

definition state_of :: "container \<Rightarrow> pyval" where
  "state_of c = py_or (attr_get (attrs c) ''State'') (PDict [])"

text \<open>A container whose snapshot holds the given top-level entries, and that reloads.\<close>

definition sample_container :: "string \<Rightarrow> (string \<times> pyval) list \<Rightarrow> container" where
  "sample_container nm entries =
     \<lparr>reload_raises = None,
      image_of = Inr (Some \<lparr>tags = [''nginx:latest''], image_short_id = ''sha256:0123456789''\<rparr>),
      short_id = ''0123456789ab'',
      name = Some nm,
      attrs = PDict entries\<rparr>"

text \<open>Snapshots used to run the extractor.\<close>

definition healthy_snapshot :: container where
  "healthy_snapshot =
     sample_container ''web''
       [(''State'', PDict [(''Health'', PDict [(''Status'', PStr ''Healthy'')]),
                           (''StartedAt'', PStr ''2025-11-06T21:27:08.123456789Z''),
                           (''RestartCount'', PInt 9)]),
        (''RestartCount'', PInt 5)]"


text \<open>
  The invariant of the loop: the backoff stays between its floor and its ceiling, and is
  at its floor whenever a client is held.
\<close>

definition backoff_inv :: "'c loop_state \<Rightarrow> bool" where
  "backoff_inv s = (1 \<le> backoff s \<and> backoff s \<le> 30 \<and> (client s \<noteq> None \<longrightarrow> backoff s = 1))"

text \<open>A configuration and three kinds of iteration used to run the loop.\<close>

definition sample_config :: config where
  "sample_config =
     \<lparr>interval = 10, env_docker_host = [],
      default_socket_candidates = [''unix:///var/run/docker.sock''],
      lib_of = sample_lib\<rparr>"

definition live_world :: "unit docker_world" where
  "live_world =
     \<lparr>path_exists = (\<lambda>p. p = ''/var/run/docker.sock''),
      docker_client = (\<lambda>b. Inr ()),
      from_env = Inl ''connection refused'',
      version_error = (\<lambda>c. None),
      api_base_url = (\<lambda>c. None)\<rparr>"

definition dead_tick :: "unit tick" where
  "dead_tick = \<lparr>world = sample_world, hostname = ''host'', containers_list = (\<lambda>c. Inr [])\<rparr>"

definition live_tick :: "container list \<Rightarrow> unit tick" where
  "live_tick cs = \<lparr>world = live_world, hostname = ''host'', containers_list = (\<lambda>c. Inr cs)\<rparr>"

definition lost_tick :: "unit tick" where
  "lost_tick =
     \<lparr>world = live_world, hostname = ''host'',
      containers_list = (\<lambda>c. Inl (DockerException ''connection aborted''))\<rparr>"

section \<open>Notions used to state the registry properties\<close>

text \<open>
  The facts of the containers of a pass whose processing succeeds, in list order, and the
  warnings of those whose processing raises.
\<close>

definition derived_facts :: "python_lib \<Rightarrow> container list \<Rightarrow> facts list" where
  "derived_facts lib cs =
     concat (map (\<lambda>c. case derive lib c of Inl e \<Rightarrow> [] | Inr f \<Rightarrow> [f]) cs)"

definition derived_warnings :: "python_lib \<Rightarrow> container list \<Rightarrow> string list" where
  "derived_warnings lib cs =
     concat (map (\<lambda>c. case derive lib c of
                       Inl e \<Rightarrow> [warn_line (best_known_name c) e]
                     | Inr f \<Rightarrow> []) cs)"

definition succeeds :: "python_lib \<Rightarrow> container \<Rightarrow> bool" where
  "succeeds lib c = (case derive lib c of Inl e \<Rightarrow> False | Inr f \<Rightarrow> True)"

text \<open>The label tuples a pass derives from its container list.\<close>

definition derived_labels :: "python_lib \<Rightarrow> string \<Rightarrow> container list \<Rightarrow> labels set" where
  "derived_labels lib host cs = labels_of host ` set (derived_facts lib cs)"

definition derived_status_labels ::
  "python_lib \<Rightarrow> string \<Rightarrow> container list \<Rightarrow> status_labels set" where
  "derived_status_labels lib host cs = (\<Union>l \<in> derived_labels lib host cs. status_rows l)"

text \<open>The published tuples of each gauge are the tuples remembered from the last pass.\<close>

definition registry_inv :: "registry \<Rightarrow> bool" where
  "registry_inv r =
     (dom (g_health r) = last_h r \<and> dom (g_status r) = last_s r
      \<and> dom (g_running r) = last_rn r \<and> dom (g_restart r) = last_rc r
      \<and> dom (g_started_at r) = last_sa r)"

text \<open>The row of the status gauge for an identity and a category.\<close>

definition status_row :: "labels \<Rightarrow> string \<Rightarrow> status_labels" where
  "status_row l s = (case l of (cname, img, cid, host) \<Rightarrow> (cname, img, cid, host, s))"

text \<open>The category of the last container of the pass that has the given identity.\<close>

definition last_status :: "string \<Rightarrow> facts list \<Rightarrow> labels \<Rightarrow> string option" where
  "last_status host fs l =
     foldl (\<lambda>acc f. if labels_of host f = l then Some (status f) else acc) None fs"

text \<open>The value of a row, \<open>0\<close> for a row that is not published.\<close>

definition row_value :: "(status_labels \<rightharpoonup> real) \<Rightarrow> labels \<Rightarrow> string \<Rightarrow> real" where
  "row_value m l s = (case m (status_row l s) of None \<Rightarrow> 0 | Some v \<Rightarrow> v)"

text \<open>The identity and the category of a row of the status gauge.\<close>

definition row_identity :: "status_labels \<Rightarrow> labels" where
  "row_identity k = (case k of (cname, img, cid, host, s) \<Rightarrow> (cname, img, cid, host))"

definition row_category :: "status_labels \<Rightarrow> string" where
  "row_category k = (case k of (cname, img, cid, host, s) \<Rightarrow> s)"

text \<open>Two more snapshots: a second container, and one whose state is no dictionary.\<close>

definition db_snapshot :: container where
  "db_snapshot =
     sample_container ''db''
       [(''State'', PDict [(''Running'', PBool True),
                           (''Health'', PDict [(''Status'', PStr ''starting'')])])]"

definition broken_snapshot :: container where
  "broken_snapshot = sample_container ''broken'' [(''State'', PStr ''oops'')]"

text \<open>A container whose reload fails, and one whose name cannot be read.\<close>

definition flaky_snapshot :: container where
  "flaky_snapshot = (sample_container ''flaky'' [])\<lparr>reload_raises := Some ''500 Server Error''\<rparr>"

definition nameless_snapshot :: container where
  "nameless_snapshot = (sample_container [] [])\<lparr>name := None\<rparr>"

section \<open>Properties of the endpoint resolver\<close>

subsection \<open>Normalisation and deduplication\<close>

lemma foldl_add_first:
  "foldl (\<lambda>acc x. if x \<notin> set acc then acc @ [x] else acc) acc xs
     = acc @ filter (\<lambda>y. y \<notin> set acc) (dedup_first xs)"
proof (induction xs arbitrary: acc)
  case Nil
  then show ?case by simp
next
  case (Cons x xs)
  show ?case
  proof (cases "x \<in> set acc")
    case True
    then have "filter (\<lambda>y. y \<notin> set acc) (filter (\<lambda>y. y \<noteq> x) (dedup_first xs))
        = filter (\<lambda>y. y \<notin> set acc) (dedup_first xs)"
      by (auto intro: filter_cong)
    with True Cons.IH [of acc] show ?thesis by simp
  next
    case False
    have "filter (\<lambda>y. y \<notin> set (acc @ [x])) (dedup_first xs)
        = filter (\<lambda>y. y \<notin> set acc) (filter (\<lambda>y. y \<noteq> x) (dedup_first xs))"
      by (auto intro: filter_cong)
    with False Cons.IH [of "acc @ [x]"] show ?thesis by simp
  qed
qed

lemma foldl_add_candidate:
  "foldl add_candidate acc ds
     = foldl (\<lambda>acc x. if x \<notin> set acc then acc @ [x] else acc) acc
         (map canonical_unix_path ds)"
  by (induction ds arbitrary: acc) (simp_all add: add_candidate_def Let_def)

lemma set_dedup_first: "set (dedup_first xs) = set xs"
  by (induction xs) auto

lemma distinct_dedup_first: "distinct (dedup_first xs)"
  by (induction xs) (auto simp: set_dedup_first)

lemma socket_candidates_dedup:
  "socket_candidates env ds
     = dedup_first (map canonical_unix_path ((if env \<noteq> [] then [env] else []) @ ds))"
proof (cases "env = []")
  case True
  then show ?thesis
    by (simp add: socket_candidates_def foldl_add_candidate foldl_add_first)
next
  case False
  have "filter (\<lambda>y. y \<notin> set [canonical_unix_path env])
          (dedup_first (map canonical_unix_path ds))
      = filter (\<lambda>y. y \<noteq> canonical_unix_path env)
          (dedup_first (map canonical_unix_path ds))"
    by (auto intro: filter_cong)
  with False show ?thesis
    by (simp add: socket_candidates_def foldl_add_candidate foldl_add_first)
qed

lemma startswith_Cons:
  "startswith s (c # p) = (case s of [] \<Rightarrow> False | x # t \<Rightarrow> x = c \<and> startswith t p)"
  by (cases s) (simp_all add: startswith_def)

lemma startswith_Nil: "startswith s []"
  by (simp add: startswith_def)

lemma canonical_from_env: "canonical_unix_path u = ''from_env'' \<longleftrightarrow> u = ''from_env''"
  by (auto simp: canonical_unix_path_def Let_def lower_def lower_char_def startswith_def)

lemma canonical_from_env_sym: "''from_env'' = canonical_unix_path u \<longleftrightarrow> u = ''from_env''"
  using canonical_from_env [of u] by auto

lemma canonical_http_alias:
  "startswith (lower u) ''http+docker://'' \<or> startswith (lower u) ''http+unix://''
   \<Longrightarrow> canonical_unix_path u = ''unix:///var/run/docker.sock''"
  by (auto simp: canonical_unix_path_def Let_def lower_def startswith_def)

lemma canonical_npipe_alias:
  "startswith (lower u) ''npipe://'' \<Longrightarrow> canonical_unix_path u = ''npipe:////./pipe/docker_engine''"
  by (cases "lower u")
    (auto simp: canonical_unix_path_def Let_def startswith_Cons lower_def split: list.splits)

lemma distinct_candidates_of:
  assumes "env \<noteq> ''from_env''" and "''from_env'' \<notin> set ds"
  shows "distinct (candidates_of env ds)"
proof -
  have "''from_env'' \<notin> set (socket_candidates env ds)"
  proof
    assume "''from_env'' \<in> set (socket_candidates env ds)"
    then have "''from_env''
        \<in> canonical_unix_path ` set ((if env \<noteq> [] then [env] else []) @ ds)"
      by (simp only: socket_candidates_dedup set_dedup_first set_map)
    then obtain x where x: "x \<in> set ((if env \<noteq> [] then [env] else []) @ ds)"
      and c: "''from_env'' = canonical_unix_path x"
      by blast
    from c have "x = ''from_env''"
      by (simp only: canonical_from_env_sym)
    with x assms show False
      by (auto split: if_splits)
  qed
  moreover have "distinct (socket_candidates env ds)"
    by (simp only: socket_candidates_dedup distinct_dedup_first)
  ultimately show ?thesis by (simp add: candidates_of_def)
qed

lemmas candidate_eval =
  candidates_of_def socket_candidates_def add_candidate_def canonical_unix_path_def
  lower_def lower_char_def startswith_def

text \<open>
  C6 (as stated).  The claim says that the candidate list is free of duplicates after
  normalisation.  The final sentinel \<open>from_env\<close> is appended without the membership
  test, so an override that is literally \<open>from_env\<close> gives a list with that entry
  twice.
\<close>

theorem candidates_sentinel_duplicate:
  "candidates_of ''from_env'' [] = [''from_env'', ''from_env'']
   \<and> \<not> distinct (candidates_of ''from_env'' [])"
  by (simp add: candidate_eval)

text \<open>
  C6 (amended).  Every candidate whose lowercased form starts with \<open>http+docker://\<close> or
  \<open>http+unix://\<close> is rewritten to the canonical local socket, every \<open>npipe://\<close> alias to
  the canonical named pipe; the override followed by the defaults is deduplicated after
  normalisation, keeping first occurrences in order, and the sentinel \<open>from_env\<close> is
  then appended unconditionally.  The whole list is duplicate-free whenever neither the
  override nor a default is literally \<open>from_env\<close>.  A list holding both
  \<open>http+docker://local\<close> and \<open>http+unix://local\<close> collapses to one candidate.
\<close>

theorem candidates_normalised_dedup:
  "candidates_of env ds
     = dedup_first (map canonical_unix_path ((if env \<noteq> [] then [env] else []) @ ds))
       @ [''from_env'']
   \<and> distinct (dedup_first (map canonical_unix_path ((if env \<noteq> [] then [env] else []) @ ds)))
   \<and> (startswith (lower u) ''http+docker://'' \<or> startswith (lower u) ''http+unix://''
        \<longrightarrow> canonical_unix_path u = ''unix:///var/run/docker.sock'')
   \<and> (startswith (lower u) ''npipe://''
        \<longrightarrow> canonical_unix_path u = ''npipe:////./pipe/docker_engine'')
   \<and> (env \<noteq> ''from_env'' \<and> ''from_env'' \<notin> set ds \<longrightarrow> distinct (candidates_of env ds))
   \<and> candidates_of [] [''http+docker://local'', ''http+unix://local'']
       = [''unix:///var/run/docker.sock'', ''from_env'']"
proof (intro conjI impI)
  show "candidates_of env ds
     = dedup_first (map canonical_unix_path ((if env \<noteq> [] then [env] else []) @ ds))
       @ [''from_env'']"
    by (simp only: candidates_of_def socket_candidates_dedup)
  show "distinct (dedup_first (map canonical_unix_path ((if env \<noteq> [] then [env] else []) @ ds)))"
    by (rule distinct_dedup_first)
  show "canonical_unix_path u = ''unix:///var/run/docker.sock''"
    if "startswith (lower u) ''http+docker://'' \<or> startswith (lower u) ''http+unix://''"
    using that by (rule canonical_http_alias)
  show "canonical_unix_path u = ''npipe:////./pipe/docker_engine''"
    if "startswith (lower u) ''npipe://''"
    using that by (rule canonical_npipe_alias)
  show "distinct (candidates_of env ds)"
    if "env \<noteq> ''from_env'' \<and> ''from_env'' \<notin> set ds"
    using that by (simp add: distinct_candidates_of)
  show "candidates_of [] [''http+docker://local'', ''http+unix://local'']
       = [''unix:///var/run/docker.sock'', ''from_env'']"
    by (simp add: candidate_eval)
qed

theorem candidates_normalised_dedup_witness:
  "startswith (lower ''HTTP+Docker://local'') ''http+docker://''
   \<and> startswith (lower ''NPIPE://x'') ''npipe://''
   \<and> canonical_unix_path ''HTTP+Docker://local'' = ''unix:///var/run/docker.sock''
   \<and> canonical_unix_path ''http+unix://local'' = ''unix:///var/run/docker.sock''
   \<and> ''HTTP+Docker://local'' \<noteq> ''from_env''
   \<and> ''from_env'' \<notin> set [''unix:///var/run/docker.sock'', ''unix:///run/user/1000/docker.sock'']
   \<and> distinct (candidates_of ''HTTP+Docker://local''
         [''unix:///var/run/docker.sock'', ''unix:///run/user/1000/docker.sock''])
   \<and> candidates_of ''HTTP+Docker://local''
         [''unix:///var/run/docker.sock'', ''unix:///run/user/1000/docker.sock'']
       = [''unix:///var/run/docker.sock'', ''unix:///run/user/1000/docker.sock'', ''from_env'']"
proof -
  have a: "startswith (lower ''HTTP+Docker://local'') ''http+docker://''"
    by (simp add: lower_def lower_char_def startswith_def)
  have b: "startswith (lower ''NPIPE://x'') ''npipe://''"
    by (simp add: lower_def lower_char_def startswith_def)
  have c: "startswith (lower ''http+unix://local'') ''http+unix://''"
    by (simp add: lower_def lower_char_def startswith_def)
  have d: "''HTTP+Docker://local'' \<noteq> ''from_env''
      \<and> ''from_env'' \<notin> set [''unix:///var/run/docker.sock'', ''unix:///run/user/1000/docker.sock'']"
    by simp
  note t1 = candidates_normalised_dedup [of "''HTTP+Docker://local''"
      "[''unix:///var/run/docker.sock'', ''unix:///run/user/1000/docker.sock'']"
      "''HTTP+Docker://local''"]
  note t2 = candidates_normalised_dedup [of "[]" "[]" "''http+unix://local''"]
  from t1 a have e: "canonical_unix_path ''HTTP+Docker://local'' = ''unix:///var/run/docker.sock''"
    by blast
  from t2 c have f: "canonical_unix_path ''http+unix://local'' = ''unix:///var/run/docker.sock''"
    by blast
  from t1 d have g: "distinct (candidates_of ''HTTP+Docker://local''
         [''unix:///var/run/docker.sock'', ''unix:///run/user/1000/docker.sock''])"
    by blast
  have h: "candidates_of ''HTTP+Docker://local''
         [''unix:///var/run/docker.sock'', ''unix:///run/user/1000/docker.sock'']
       = [''unix:///var/run/docker.sock'', ''unix:///run/user/1000/docker.sock'', ''from_env'']"
    by (simp add: candidate_eval)
  from a b d e f g h show ?thesis by blast
qed

subsection \<open>Skipped candidates and the failure of a resolution\<close>

lemma try_base_skip:
  "startswith base ''unix://'' \<Longrightarrow> \<not> path_exists w (drop (length ''unix://'') base)
   \<Longrightarrow> try_base w base = Skipped"
  by (auto simp: try_base_def file_exists_for_unix_def startswith_def)

lemma set_attempted_try_candidates:
  "set (attempted (try_candidates w cs att errs))
     \<subseteq> set att \<union> {b \<in> set cs. try_base w b \<noteq> Skipped}"
proof (induction cs arbitrary: att errs)
  case Nil
  then show ?case by simp
next
  case (Cons b cs)
  show ?case
  proof (cases "try_base w b")
    case Skipped
    with Cons.IH [of att errs] show ?thesis by auto
  next
    case (Failed e)
    with Cons.IH [of "att @ [b]" "AList.update b e errs"] show ?thesis by auto
  next
    case (Connected cli u)
    then show ?thesis by auto
  qed
qed

lemma keys_errors_try_candidates:
  "fst ` set (errors (try_candidates w cs att errs))
     \<subseteq> fst ` set errs \<union> {b \<in> set cs. \<exists>e. try_base w b = Failed e}"
proof (induction cs arbitrary: att errs)
  case Nil
  then show ?case by simp
next
  case (Cons b cs)
  show ?case
  proof (cases "try_base w b")
    case Skipped
    with Cons.IH [of att errs] show ?thesis by auto
  next
    case (Failed e)
    with Cons.IH [of "att @ [b]" "AList.update b e errs"] show ?thesis
      by (auto simp: dom_update)
  next
    case (Connected cli u)
    then show ?thesis by auto
  qed
qed

lemma failed_run:
  "no_success w cs \<Longrightarrow> distinct (map fst errs) \<Longrightarrow> fst ` set errs = set att \<Longrightarrow>
   (let r = try_candidates w cs att errs in
      outcome r = Inl (DockerException ''Unable to connect to Docker daemon via any known method.'')
    \<and> log_lines r = map tried_line (errors r)
    \<and> distinct (map fst (errors r))
    \<and> fst ` set (errors r) = set (attempted r)
    \<and> attempted r = att @ filter (\<lambda>b. try_base w b \<noteq> Skipped) cs
    \<and> (\<forall>b. map_of (errors r) b =
          (if b \<in> set cs \<and> try_base w b \<noteq> Skipped
           then (case try_base w b of Failed e \<Rightarrow> Some e | _ \<Rightarrow> None) else map_of errs b)))"
proof (induction cs arbitrary: att errs)
  case Nil
  then show ?case by simp
next
  case (Cons b cs)
  from Cons.prems have ns: "no_success w cs" by (simp add: no_success_def)
  show ?case
  proof (cases "try_base w b")
    case Skipped
    with Cons.IH [OF ns Cons.prems(2,3)] show ?thesis by (auto simp: Let_def)
  next
    case (Failed e)
    have d: "distinct (map fst (AList.update b e errs))"
      using Cons.prems(2) by (rule distinct_update)
    have k: "fst ` set (AList.update b e errs) = set (att @ [b])"
      using Cons.prems(3) by (simp add: dom_update)
    from Cons.IH [OF ns d k] Failed show ?thesis
      by (auto simp: Let_def update_conv' split: attempt.splits)
  next
    case (Connected cli u)
    with Cons.prems(1) show ?thesis by (simp add: no_success_def)
  qed
qed

text \<open>
  C7 (as stated).  The claim says that the error raised when every candidate fails
  carries the attempted-candidate to failure-reason pairs.  The exception raised has a
  fixed message; the pairs are only written to the log.  Two worlds that fail for
  different reasons raise the same exception.
\<close>

theorem resolution_error_fixed_message:
  "outcome (create_docker_client [] [''unix:///var/run/docker.sock''] refused_world)
     = outcome (create_docker_client [] [''unix:///var/run/docker.sock''] denied_world)
   \<and> outcome (create_docker_client [] [''unix:///var/run/docker.sock''] refused_world)
     = Inl (DockerException ''Unable to connect to Docker daemon via any known method.'')
   \<and> errors (create_docker_client [] [''unix:///var/run/docker.sock''] refused_world)
     = [(''from_env'', ''connection refused'')]
   \<and> errors (create_docker_client [] [''unix:///var/run/docker.sock''] denied_world)
     = [(''from_env'', ''permission denied'')]"
  by (simp add: create_docker_client_def candidate_eval try_base_def file_exists_for_unix_def
      refused_world_def denied_world_def)

text \<open>
  C7 (amended).  A candidate that starts with \<open>unix://\<close> and whose path does not exist is
  skipped: no client constructor is called for it and no failure reason is recorded for
  it.  If no candidate succeeds, the resolution writes one log line per
  attempted-candidate to failure-reason pair, with exactly one reason per candidate
  actually attempted, and raises a Docker exception with a fixed message.
\<close>

theorem resolution_failure_logged:
  "(\<forall>b \<in> set (candidates_of env ds).
       startswith b ''unix://'' \<and> \<not> path_exists w (drop (length ''unix://'') b)
       \<longrightarrow> b \<notin> set (attempted (create_docker_client env ds w))
           \<and> map_of (errors (create_docker_client env ds w)) b = None)
   \<and> (no_success w (candidates_of env ds) \<longrightarrow>
        outcome (create_docker_client env ds w)
          = Inl (DockerException ''Unable to connect to Docker daemon via any known method.'')
      \<and> log_lines (create_docker_client env ds w)
          = map tried_line (errors (create_docker_client env ds w))
      \<and> distinct (map fst (errors (create_docker_client env ds w)))
      \<and> fst ` set (errors (create_docker_client env ds w))
          = set (attempted (create_docker_client env ds w))
      \<and> attempted (create_docker_client env ds w)
          = filter (\<lambda>b. try_base w b \<noteq> Skipped) (candidates_of env ds)
      \<and> (\<forall>b e. map_of (errors (create_docker_client env ds w)) b = Some e
            \<longleftrightarrow> b \<in> set (candidates_of env ds) \<and> try_base w b = Failed e))"
proof (intro conjI ballI impI allI)
  fix b
  assume b: "b \<in> set (candidates_of env ds)"
    and u: "startswith b ''unix://'' \<and> \<not> path_exists w (drop (length ''unix://'') b)"
  from u have sk: "try_base w b = Skipped"
    by (simp add: try_base_skip)
  from sk set_attempted_try_candidates [of w "candidates_of env ds" "[]" "[]"]
  show "b \<notin> set (attempted (create_docker_client env ds w))"
    by (auto simp: create_docker_client_def)
  from sk keys_errors_try_candidates [of w "candidates_of env ds" "[]" "[]"]
  have "b \<notin> fst ` set (errors (create_docker_client env ds w))"
    by (auto simp: create_docker_client_def)
  then show "map_of (errors (create_docker_client env ds w)) b = None"
    by (simp add: map_of_eq_None_iff)
next
  assume ns: "no_success w (candidates_of env ds)"
  note fr = failed_run [OF ns, of "[]" "[]", unfolded Let_def, simplified,
      folded create_docker_client_def]
  from fr show "outcome (create_docker_client env ds w)
      = Inl (DockerException ''Unable to connect to Docker daemon via any known method.'')"
    by simp
  from fr show "log_lines (create_docker_client env ds w)
      = map tried_line (errors (create_docker_client env ds w))"
    by simp
  from fr show "distinct (map fst (errors (create_docker_client env ds w)))"
    by simp
  from fr show "fst ` set (errors (create_docker_client env ds w))
      = set (attempted (create_docker_client env ds w))"
    by simp
  from fr show "attempted (create_docker_client env ds w)
      = filter (\<lambda>b. try_base w b \<noteq> Skipped) (candidates_of env ds)"
    by simp
  fix b e
  from fr have "map_of (errors (create_docker_client env ds w)) b =
      (if b \<in> set (candidates_of env ds) \<and> try_base w b \<noteq> Skipped
       then (case try_base w b of Failed e \<Rightarrow> Some e | _ \<Rightarrow> None) else None)"
    by simp
  then show "map_of (errors (create_docker_client env ds w)) b = Some e
      \<longleftrightarrow> b \<in> set (candidates_of env ds) \<and> try_base w b = Failed e"
    by (auto split: attempt.splits if_splits)
qed

theorem resolution_failure_logged_witness:
  "''unix:///run/user/1000/docker.sock''
     \<in> set (candidates_of [] [''unix:///var/run/docker.sock'', ''unix:///run/user/1000/docker.sock''])
   \<and> startswith ''unix:///run/user/1000/docker.sock'' ''unix://''
   \<and> \<not> path_exists sample_world (drop (length ''unix://'') ''unix:///run/user/1000/docker.sock'')
   \<and> no_success sample_world
        (candidates_of [] [''unix:///var/run/docker.sock'', ''unix:///run/user/1000/docker.sock''])
   \<and> ''unix:///run/user/1000/docker.sock''
        \<notin> set (attempted (create_docker_client []
              [''unix:///var/run/docker.sock'', ''unix:///run/user/1000/docker.sock''] sample_world))
   \<and> outcome (create_docker_client []
        [''unix:///var/run/docker.sock'', ''unix:///run/user/1000/docker.sock''] sample_world)
       = Inl (DockerException ''Unable to connect to Docker daemon via any known method.'')
   \<and> errors (create_docker_client []
        [''unix:///var/run/docker.sock'', ''unix:///run/user/1000/docker.sock''] sample_world)
       = [(''unix:///var/run/docker.sock'', ''permission denied''),
          (''from_env'', ''connection refused'')]
   \<and> log_lines (create_docker_client []
        [''unix:///var/run/docker.sock'', ''unix:///run/user/1000/docker.sock''] sample_world)
       = [''[error] Tried unix:///var/run/docker.sock: permission denied'',
          ''[error] Tried from_env: connection refused'']"
proof -
  let ?ds = "[''unix:///var/run/docker.sock'', ''unix:///run/user/1000/docker.sock'']"
  let ?b = "''unix:///run/user/1000/docker.sock''"
  have c: "candidates_of [] ?ds
      = [''unix:///var/run/docker.sock'', ''unix:///run/user/1000/docker.sock'', ''from_env'']"
    by (simp add: candidate_eval)
  have m: "?b \<in> set (candidates_of [] ?ds)"
    by (simp add: c)
  have u: "startswith ?b ''unix://'' \<and> \<not> path_exists sample_world (drop (length ''unix://'') ?b)"
    by (simp add: startswith_def sample_world_def)
  have t1: "try_base sample_world ''unix:///var/run/docker.sock'' = Failed ''permission denied''"
    by (simp add: try_base_def sample_world_def file_exists_for_unix_def startswith_def)
  have t2: "try_base sample_world ?b = Skipped"
    by (simp add: try_base_def sample_world_def file_exists_for_unix_def startswith_def)
  have t3: "try_base sample_world ''from_env'' = Failed ''connection refused''"
    by (simp add: try_base_def sample_world_def)
  have n: "no_success sample_world (candidates_of [] ?ds)"
    by (simp add: c no_success_def t1 t2 t3)
  have e: "errors (create_docker_client [] ?ds sample_world)
      = [(''unix:///var/run/docker.sock'', ''permission denied''),
         (''from_env'', ''connection refused'')]"
    by (simp add: create_docker_client_def c t1 t2 t3)
  note th = resolution_failure_logged [of "[]" ?ds sample_world]
  from th m u have a: "?b \<notin> set (attempted (create_docker_client [] ?ds sample_world))"
    by blast
  from th n have o: "outcome (create_docker_client [] ?ds sample_world)
      = Inl (DockerException ''Unable to connect to Docker daemon via any known method.'')"
    by blast
  from th n have "log_lines (create_docker_client [] ?ds sample_world)
      = map tried_line (errors (create_docker_client [] ?ds sample_world))"
    by blast
  then have l: "log_lines (create_docker_client [] ?ds sample_world)
      = [''[error] Tried unix:///var/run/docker.sock: permission denied'',
         ''[error] Tried from_env: connection refused'']"
    by (simp add: e tried_line_def)
  from m u n a o e l show ?thesis by blast
qed

section \<open>Properties of the state extractor\<close>

lemma dict_get_attr_get: "dict_get v k = Inr x \<Longrightarrow> x = attr_get v k"
  by (cases v) (auto simp: attr_get_def)

lemma dict_get_default_attr_get:
  "dict_get_default v k (PDict []) = Inr x \<Longrightarrow> py_or x (PDict []) = py_or (attr_get v k) (PDict [])"
  by (cases v) (auto simp: attr_get_def py_or_def split: option.splits)

lemma derive_Inr:
  assumes "derive lib c = Inr f"
  shows "name c = Some (f_name f)" and "f_cid f = short_id c"
    and "health_of (attr_get (state_of c) ''Health'') = Inr (num f, status f)"
    and "running f = (if truthy (attr_get (state_of c) ''Running'') then 1 else 0)"
    and "restart_count f = restart_count_of lib (attr_get (attrs c) ''RestartCount'')
           (attr_get (state_of c) ''RestartCount'')"
    and "started_at f = started_at_of lib (attr_get (state_of c) ''StartedAt'')"
    and "reload_raises c = None"
    and "\<exists>im. image_of c = Inr im \<and> f_img f = image_label im"
  using assms
  by (auto simp: derive_def state_of_def Let_def
      dest!: dict_get_attr_get dict_get_default_attr_get
      split: option.splits sum.splits prod.splits)

lemma health_of_status:
  "health_of h = Inr (n, st) \<Longrightarrow> st \<in> set statuses"
  by (auto simp: health_of_def statuses_def split: if_splits sum.splits)


lemma derive_healthy_snapshot:
  "derive sample_lib healthy_snapshot
   = Inr \<lparr>f_name = ''web'', f_img = ''nginx:latest'', f_cid = ''0123456789ab'',
        num = 1, status = ''healthy'', running = 0, restart_count = 5,
        started_at = 1762464428123456 / 1000000\<rparr>"
  by code_simp

subsection \<open>Health\<close>




subsection \<open>Restart count\<close>


lemma float_int_bound_small: "\<bar>n\<bar> < 2 ^ 53 \<Longrightarrow> \<bar>n\<bar> < float_int_bound"
  by (simp add: float_int_bound_def)



subsection \<open>Start timestamp\<close>

lemma rstrip_Z_snoc: "rstrip_Z (s @ ''Z'') = rstrip_Z s"
  by (simp add: rstrip_Z_def)

lemma takeWhile_dot: "CHR ''.'' \<notin> set h \<Longrightarrow> takeWhile (\<lambda>c. c \<noteq> CHR ''.'') (h @ CHR ''.'' # fr) = h"
  by (induction h) auto

lemma dropWhile_dot:
  "CHR ''.'' \<notin> set h \<Longrightarrow> dropWhile (\<lambda>c. c \<noteq> CHR ''.'') (h @ CHR ''.'' # fr) = CHR ''.'' # fr"
  by (induction h) auto

lemma keep_microseconds_split:
  "CHR ''.'' \<notin> set h \<Longrightarrow> keep_microseconds (h @ ''.'' @ fr) = h @ ''.'' @ take 6 fr"
  by (simp add: keep_microseconds_def takeWhile_dot dropWhile_dot)

lemma keep_microseconds_nodot: "CHR ''.'' \<notin> set s \<Longrightarrow> keep_microseconds s = s"
  by (simp add: keep_microseconds_def)

lemma rstrip_Z_keep:
  "c \<noteq> CHR ''Z'' \<Longrightarrow> rstrip_Z (h @ c # r) = h @ c # rstrip_Z r"
proof -
  assume c: "c \<noteq> CHR ''Z''"
  have "dropWhile (\<lambda>c. c = CHR ''Z'') (xs @ c # rev h)
      = dropWhile (\<lambda>c. c = CHR ''Z'') xs @ c # rev h" for xs
    using c by (induction xs) auto
  from this [of "rev r"] show ?thesis
    by (simp add: rstrip_Z_def)
qed

lemma parse_started_at_fraction:
  assumes "CHR ''.'' \<notin> set h" and "take 6 (rstrip_Z r1) = take 6 (rstrip_Z r2)"
  shows "parse_started_at lib (h @ ''.'' @ r1) = parse_started_at lib (h @ ''.'' @ r2)"
proof -
  have "keep_microseconds (rstrip_Z (h @ ''.'' @ r)) = h @ ''.'' @ take 6 (rstrip_Z r)" for r
    using assms(1) keep_microseconds_split [of h "rstrip_Z r"]
    by (simp add: rstrip_Z_keep)
  with assms(2) show ?thesis
    by (simp add: parse_started_at_def)
qed

lemma take_rstrip_Z_append:
  assumes "CHR ''Z'' \<notin> set d" and "length d = 6"
  shows "take 6 (rstrip_Z (d @ x)) = take 6 (rstrip_Z d)"
proof -
  from assms(2) have ne: "d \<noteq> []" by auto
  then have d: "d = butlast d @ [last d]" by simp
  from ne assms(1) have l: "last d \<noteq> CHR ''Z''"
    using last_in_set by metis
  have a: "rstrip_Z (d @ y) = d @ rstrip_Z y" for y
  proof -
    have "rstrip_Z (d @ y) = rstrip_Z (butlast d @ last d # y)"
      using d by (metis append_Cons append_Nil append_assoc)
    also have "\<dots> = butlast d @ last d # rstrip_Z y"
      using l by (rule rstrip_Z_keep)
    also have "\<dots> = d @ rstrip_Z y"
      using d by (metis append_Cons append_Nil append_assoc)
    finally show ?thesis .
  qed
  from a [of "[]"] have b: "rstrip_Z d = d"
    by (simp add: rstrip_Z_def)
  from a [of x] b assms(2) show ?thesis by simp
qed

lemma parse_started_at_beyond_microseconds:
  assumes "CHR ''.'' \<notin> set h" and "CHR ''Z'' \<notin> set d" and "length d = 6"
  shows "parse_started_at lib (h @ ''.'' @ d @ x) = parse_started_at lib (h @ ''.'' @ d)"
  using assms by (intro parse_started_at_fraction take_rstrip_Z_append)

lemma started_at_of_nonempty:
  "s \<noteq> [] \<Longrightarrow> started_at_of lib (PStr s)
     = (case parse_started_at lib s of None \<Rightarrow> 0 | Some t \<Rightarrow> t)"
  by (simp add: started_at_of_def py_or_def)

lemma timestamp_replace: "timestamp (replace_tzinfo_utc dt) = wall_seconds dt"
  by (simp add: timestamp_def replace_tzinfo_utc_def wall_seconds_def)

lemma started_at_of_PStr:
  "started_at_of lib (PStr s) =
     (if s = [] then 0
      else case fromisoformat lib (keep_microseconds (rstrip_Z s)) of
             None \<Rightarrow> 0 | Some dt \<Rightarrow> wall_seconds dt)"
  by (simp add: started_at_of_def py_or_def parse_started_at_def timestamp_replace
      split: option.splits)

lemma sample_fromisoformat: "fromisoformat sample_lib = iso_fromisoformat"
  by (simp add: sample_lib_def)

lemma rstrip_Z_unchanged:
  assumes "s \<noteq> []" and "last s \<noteq> CHR ''Z''"
  shows "rstrip_Z s = s"
proof -
  from assms(1) have d: "s = butlast s @ [last s]" by simp
  have "rstrip_Z (butlast s @ last s # []) = butlast s @ last s # rstrip_Z []"
    using assms(2) by (rule rstrip_Z_keep)
  then have "rstrip_Z (butlast s @ [last s]) = butlast s @ [last s]"
    by (simp add: rstrip_Z_def)
  with d show ?thesis by simp
qed

lemma parse_started_at_snoc_Z:
  "s \<noteq> [] \<Longrightarrow> parse_started_at lib (s @ ''Z'') = parse_started_at lib s"
  by (simp add: parse_started_at_def rstrip_Z_snoc)

text \<open>
  C4 (as stated).  The claim says that a malformed input yields 0.  What follows the
  sixth character after the dot is cut away and trailing \<open>Z\<close>s are stripped before the
  parser sees the string, so malformed inputs whose cut form is a timestamp yield that
  timestamp's seconds; and the cut takes six characters whatever they are, so a
  timestamp with a short fraction and an offset reaches the parser with its offset cut
  short, and yields 0.
\<close>

theorem malformed_start_time_accepted:
  "started_at_of sample_lib (PStr ''2025-11-06T21:27:08.123456 this is not a timestamp'')
     = 1762464428123456 / 1000000
   \<and> started_at_of sample_lib (PStr ''2025-11-06T21:27:08ZZZZ'') = 1762464428
   \<and> keep_microseconds (rstrip_Z ''2025-11-06T21:27:08.5+02:00'') = ''2025-11-06T21:27:08.5+02:0''
   \<and> started_at_of sample_lib (PStr ''2025-11-06T21:27:08.5+02:00'') = 0"
  by code_simp

text \<open>
  C4 (amended).  The start time of a string is obtained by removing trailing \<open>Z\<close>s,
  cutting what follows the first dot to six characters, parsing the result and reading
  its wall-clock fields as UTC.  Two strings that agree before the dot and on the six
  characters kept give the same seconds, so the nanosecond example gives the same
  seconds as its microsecond form, and so does any string that continues after six
  fraction digits; a trailing \<open>Z\<close> changes nothing.  The empty string, an absent value
  and every string whose stripped and cut form the parser refuses give 0.  The function
  is total: no input raises.
\<close>

theorem started_at_parsing:
  "started_at_of lib (PStr s) =
     (if s = [] then 0
      else case fromisoformat lib (keep_microseconds (rstrip_Z s)) of
             None \<Rightarrow> 0 | Some dt \<Rightarrow> wall_seconds dt)
   \<and> (CHR ''.'' \<notin> set h \<longrightarrow> keep_microseconds (h @ ''.'' @ fr) = h @ ''.'' @ take 6 fr)
   \<and> (CHR ''.'' \<notin> set s \<longrightarrow> keep_microseconds s = s)
   \<and> started_at_of lib (PStr ''2025-11-06T21:27:08.123456789Z'')
       = started_at_of lib (PStr ''2025-11-06T21:27:08.123456Z'')
   \<and> started_at_of lib (PStr []) = 0
   \<and> started_at_of lib PNone = 0
   \<and> (fromisoformat lib (keep_microseconds (rstrip_Z s)) = None
        \<longrightarrow> started_at_of lib (PStr s) = 0)
   \<and> (derive lib c = Inr f
        \<longrightarrow> started_at f = started_at_of lib (attr_get (state_of c) ''StartedAt''))
   \<and> (CHR ''.'' \<notin> set h \<and> take 6 (rstrip_Z r1) = take 6 (rstrip_Z r2)
        \<longrightarrow> started_at_of lib (PStr (h @ ''.'' @ r1)) = started_at_of lib (PStr (h @ ''.'' @ r2)))
   \<and> (s \<noteq> [] \<longrightarrow> started_at_of lib (PStr (s @ ''Z'')) = started_at_of lib (PStr s))
   \<and> (CHR ''.'' \<notin> set h \<and> CHR ''Z'' \<notin> set d \<and> length d = 6
        \<longrightarrow> started_at_of lib (PStr (h @ ''.'' @ d @ x)) = started_at_of lib (PStr (h @ ''.'' @ d)))
   \<and> rstrip_Z (s @ ''Z'') = rstrip_Z s
   \<and> rstrip_Z [] = []
   \<and> (s \<noteq> [] \<and> last s \<noteq> CHR ''Z'' \<longrightarrow> rstrip_Z s = s)"
proof (intro conjI impI)
  show "started_at_of lib (PStr s) =
     (if s = [] then 0
      else case fromisoformat lib (keep_microseconds (rstrip_Z s)) of
             None \<Rightarrow> 0 | Some dt \<Rightarrow> wall_seconds dt)"
    by (rule started_at_of_PStr)
  show "keep_microseconds (h @ ''.'' @ fr) = h @ ''.'' @ take 6 fr" if "CHR ''.'' \<notin> set h"
    using that by (rule keep_microseconds_split)
  show "keep_microseconds s = s" if "CHR ''.'' \<notin> set s"
    using that by (rule keep_microseconds_nodot)
  have a: "keep_microseconds (rstrip_Z ''2025-11-06T21:27:08.123456789Z'')
      = ''2025-11-06T21:27:08.123456''"
    by (simp add: keep_microseconds_def rstrip_Z_def)
  have b: "keep_microseconds (rstrip_Z ''2025-11-06T21:27:08.123456Z'')
      = ''2025-11-06T21:27:08.123456''"
    by (simp add: keep_microseconds_def rstrip_Z_def)
  show "started_at_of lib (PStr ''2025-11-06T21:27:08.123456789Z'')
       = started_at_of lib (PStr ''2025-11-06T21:27:08.123456Z'')"
    by (simp only: started_at_of_PStr a b) simp
  show "started_at_of lib (PStr []) = 0"
    by (simp add: started_at_of_PStr)
  show "started_at_of lib PNone = 0"
    by (simp add: started_at_of_def py_or_def parse_started_at_def)
  show "started_at_of lib (PStr s) = 0"
    if "fromisoformat lib (keep_microseconds (rstrip_Z s)) = None"
    using that by (simp add: started_at_of_PStr)
  show "started_at f = started_at_of lib (attr_get (state_of c) ''StartedAt'')"
    if "derive lib c = Inr f"
    using that by (rule derive_Inr)
  show "started_at_of lib (PStr (h @ ''.'' @ r1)) = started_at_of lib (PStr (h @ ''.'' @ r2))"
    if a: "CHR ''.'' \<notin> set h \<and> take 6 (rstrip_Z r1) = take 6 (rstrip_Z r2)"
  proof -
    from a have e: "parse_started_at lib (h @ ''.'' @ r1) = parse_started_at lib (h @ ''.'' @ r2)"
      by (intro parse_started_at_fraction) simp_all
    have n1: "h @ ''.'' @ r1 \<noteq> []" and n2: "h @ ''.'' @ r2 \<noteq> []"
      by simp_all
    show ?thesis
      by (simp only: started_at_of_nonempty [OF n1] started_at_of_nonempty [OF n2] e)
  qed
  show "started_at_of lib (PStr (s @ ''Z'')) = started_at_of lib (PStr s)" if a: "s \<noteq> []"
  proof -
    from a have n: "s @ ''Z'' \<noteq> []" by simp
    show ?thesis
      by (simp only: started_at_of_nonempty [OF n] started_at_of_nonempty [OF a]
          parse_started_at_snoc_Z [OF a])
  qed
  show "started_at_of lib (PStr (h @ ''.'' @ d @ x)) = started_at_of lib (PStr (h @ ''.'' @ d))"
    if a: "CHR ''.'' \<notin> set h \<and> CHR ''Z'' \<notin> set d \<and> length d = 6"
  proof -
    from a have e: "parse_started_at lib (h @ ''.'' @ d @ x) = parse_started_at lib (h @ ''.'' @ d)"
      by (intro parse_started_at_beyond_microseconds) simp_all
    have n1: "h @ ''.'' @ d @ x \<noteq> []" and n2: "h @ ''.'' @ d \<noteq> []"
      by simp_all
    show ?thesis
      by (simp only: started_at_of_nonempty [OF n1] started_at_of_nonempty [OF n2] e)
  qed
  show "rstrip_Z (s @ ''Z'') = rstrip_Z s"
    by (rule rstrip_Z_snoc)
  show "rstrip_Z [] = []"
    by (simp add: rstrip_Z_def)
  show "rstrip_Z s = s" if "s \<noteq> [] \<and> last s \<noteq> CHR ''Z''"
    using that by (simp add: rstrip_Z_unchanged)
qed

theorem started_at_parsing_witness:
  "CHR ''.'' \<notin> set ''2025-11-06T21:27:08''
   \<and> keep_microseconds (''2025-11-06T21:27:08'' @ ''.'' @ ''123456789'')
       = ''2025-11-06T21:27:08'' @ ''.'' @ take 6 ''123456789''
   \<and> CHR ''.'' \<notin> set ''garbage''
   \<and> keep_microseconds ''garbage'' = ''garbage''
   \<and> fromisoformat sample_lib (keep_microseconds (rstrip_Z ''garbage'')) = None
   \<and> started_at_of sample_lib (PStr ''garbage'') = 0
   \<and> started_at_of sample_lib (PStr ''2025-11-06T21:27:08.123456789Z'')
       = 1762464428123456 / 1000000
   \<and> started_at_of sample_lib (PStr ''2025-11-06T21:27:08.123456Z'')
       = 1762464428123456 / 1000000
   \<and> started_at \<lparr>f_name = ''web'', f_img = ''nginx:latest'', f_cid = ''0123456789ab'',
          num = 1, status = ''healthy'', running = 0, restart_count = 5,
          started_at = 1762464428123456 / 1000000\<rparr>
       = started_at_of sample_lib (attr_get (state_of healthy_snapshot) ''StartedAt'')
   \<and> ''garbage'' \<noteq> []
   \<and> started_at_of sample_lib (PStr (''garbage'' @ ''Z'')) = started_at_of sample_lib (PStr ''garbage'')
   \<and> ''2025-11-06T21:27:08'' \<noteq> []
   \<and> started_at_of sample_lib (PStr (''2025-11-06T21:27:08'' @ ''Z''))
       = started_at_of sample_lib (PStr ''2025-11-06T21:27:08'')
   \<and> started_at_of sample_lib (PStr ''2025-11-06T21:27:08'') = 1762464428
   \<and> CHR ''Z'' \<notin> set ''123456''
   \<and> length ''123456'' = 6
   \<and> started_at_of sample_lib
        (PStr (''2025-11-06T21:27:08'' @ ''.'' @ ''123456'' @ '' this is not a timestamp''))
       = started_at_of sample_lib (PStr (''2025-11-06T21:27:08'' @ ''.'' @ ''123456''))
   \<and> last ''garbage'' \<noteq> CHR ''Z''
   \<and> rstrip_Z ''garbage'' = ''garbage''"
proof -
  let ?f = "\<lparr>f_name = ''web'', f_img = ''nginx:latest'', f_cid = ''0123456789ab'',
          num = 1, status = ''healthy'', running = 0, restart_count = 5,
          started_at = 1762464428123456 / 1000000\<rparr>"
  note th = started_at_parsing [of sample_lib "''garbage''" "''2025-11-06T21:27:08''"
      "''123456789''" healthy_snapshot ?f "''123456789Z''" "''123456Z''" "''123456''"
      "'' this is not a timestamp''"]
  note th' = started_at_parsing [of sample_lib "''2025-11-06T21:27:08''" "[]" "[]"
      healthy_snapshot ?f "[]" "[]" "[]" "[]", THEN conjunct2, THEN conjunct2, THEN conjunct2,
      THEN conjunct2, THEN conjunct2, THEN conjunct2, THEN conjunct2, THEN conjunct2,
      THEN conjunct2, THEN conjunct1]
  note zs = th [THEN conjunct2, THEN conjunct2, THEN conjunct2,
      THEN conjunct2, THEN conjunct2, THEN conjunct2, THEN conjunct2, THEN conjunct2,
      THEN conjunct2, THEN conjunct1]
  note beyond = th [THEN conjunct2, THEN conjunct2, THEN conjunct2,
      THEN conjunct2, THEN conjunct2, THEN conjunct2, THEN conjunct2, THEN conjunct2,
      THEN conjunct2, THEN conjunct2, THEN conjunct1]
  note unchanged = th [THEN conjunct2, THEN conjunct2, THEN conjunct2,
      THEN conjunct2, THEN conjunct2, THEN conjunct2, THEN conjunct2, THEN conjunct2,
      THEN conjunct2, THEN conjunct2, THEN conjunct2, THEN conjunct2, THEN conjunct2]
  have d1: "CHR ''.'' \<notin> set ''2025-11-06T21:27:08''" by simp
  have d2: "CHR ''.'' \<notin> set ''garbage''" by simp
  have g: "fromisoformat sample_lib (keep_microseconds (rstrip_Z ''garbage'')) = None"
    by code_simp
  have n: "started_at_of sample_lib (PStr ''2025-11-06T21:27:08.123456789Z'')
       = 1762464428123456 / 1000000"
    by code_simp
  from th d1 have k1: "keep_microseconds (''2025-11-06T21:27:08'' @ ''.'' @ ''123456789'')
       = ''2025-11-06T21:27:08'' @ ''.'' @ take 6 ''123456789''"
    by blast
  from th d2 have k2: "keep_microseconds ''garbage'' = ''garbage''"
    by blast
  from th g have z: "started_at_of sample_lib (PStr ''garbage'') = 0"
    by blast
  from th n have m: "started_at_of sample_lib (PStr ''2025-11-06T21:27:08.123456Z'')
       = 1762464428123456 / 1000000"
    by simp
  from th derive_healthy_snapshot
  have s: "started_at ?f = started_at_of sample_lib (attr_get (state_of healthy_snapshot) ''StartedAt'')"
    by blast
  have e1: "''garbage'' \<noteq> []" by simp
  have e2: "''2025-11-06T21:27:08'' \<noteq> []" by simp
  have e3: "CHR ''Z'' \<notin> set ''123456''" by simp
  have e4: "length ''123456'' = 6" by simp
  have v: "started_at_of sample_lib (PStr ''2025-11-06T21:27:08'') = 1762464428"
    by code_simp
  from zs e1
  have z1: "started_at_of sample_lib (PStr (''garbage'' @ ''Z''))
      = started_at_of sample_lib (PStr ''garbage'')"
    by (rule mp)
  from th' e2
  have z2: "started_at_of sample_lib (PStr (''2025-11-06T21:27:08'' @ ''Z''))
       = started_at_of sample_lib (PStr ''2025-11-06T21:27:08'')"
    by (rule mp)
  from d1 e3 e4 have "CHR ''.'' \<notin> set ''2025-11-06T21:27:08'' \<and> CHR ''Z'' \<notin> set ''123456''
      \<and> length ''123456'' = 6"
    by (intro conjI)
  with beyond
  have y: "started_at_of sample_lib
        (PStr (''2025-11-06T21:27:08'' @ ''.'' @ ''123456'' @ '' this is not a timestamp''))
       = started_at_of sample_lib (PStr (''2025-11-06T21:27:08'' @ ''.'' @ ''123456''))"
    by (rule mp)
  have e5: "last ''garbage'' \<noteq> CHR ''Z''" by simp
  from e1 e5 have "''garbage'' \<noteq> [] \<and> last ''garbage'' \<noteq> CHR ''Z''"
    by (intro conjI)
  with unchanged have u: "rstrip_Z ''garbage'' = ''garbage''"
    by (rule mp)
  show ?thesis
    by (intro conjI d1 k1 d2 k2 g z n m s e1 z1 e2 z2 v e3 e4 y e5 u)
qed

text \<open>
  C10.  Whenever a start-timestamp string parses, the value returned is the seconds of
  the parsed wall-clock fields read as UTC, whatever offset the parser found; when the
  parser found an offset, the value returned exceeds the instant the timestamp denotes
  by exactly that offset.  A trailing \<open>Z\<close> does not change the result, and neither
  does anything written after six fraction digits, an offset included.
\<close>

theorem offset_discarded:
  "(parse_started_at lib s = Some t \<longrightarrow>
      (\<exists>dt. fromisoformat lib (keep_microseconds (rstrip_Z s)) = Some dt
           \<and> t = wall_seconds dt
           \<and> (\<forall>off. utcoffset dt = Some off \<longrightarrow> t - timestamp dt = off)))
   \<and> (s \<noteq> [] \<longrightarrow> parse_started_at lib (s @ ''Z'') = parse_started_at lib s)
   \<and> (CHR ''.'' \<notin> set h \<and> CHR ''Z'' \<notin> set d \<and> length d = 6
        \<longrightarrow> parse_started_at lib (h @ ''.'' @ d @ x) = parse_started_at lib (h @ ''.'' @ d))"
proof (intro conjI impI)
  assume a: "parse_started_at lib s = Some t"
  then obtain dt where p: "fromisoformat lib (keep_microseconds (rstrip_Z s)) = Some dt"
    and t: "t = timestamp (replace_tzinfo_utc dt)"
    by (auto simp: parse_started_at_def split: if_splits option.splits)
  from t have w: "t = wall_seconds dt"
    by (simp add: timestamp_replace)
  have "\<forall>off. utcoffset dt = Some off \<longrightarrow> wall_seconds dt - timestamp dt = off"
    by (simp add: timestamp_def)
  with p w show "\<exists>dt. fromisoformat lib (keep_microseconds (rstrip_Z s)) = Some dt
           \<and> t = wall_seconds dt
           \<and> (\<forall>off. utcoffset dt = Some off \<longrightarrow> t - timestamp dt = off)"
    by blast
next
  assume "s \<noteq> []"
  then show "parse_started_at lib (s @ ''Z'') = parse_started_at lib s"
    by (simp add: parse_started_at_def rstrip_Z_snoc)
next
  assume "CHR ''.'' \<notin> set h \<and> CHR ''Z'' \<notin> set d \<and> length d = 6"
  then have "CHR ''.'' \<notin> set h" "CHR ''Z'' \<notin> set d" "length d = 6"
    by simp_all
  then show "parse_started_at lib (h @ ''.'' @ d @ x) = parse_started_at lib (h @ ''.'' @ d)"
    by (rule parse_started_at_beyond_microseconds)
qed

theorem offset_discarded_witness:
  "parse_started_at sample_lib ''2025-11-06T21:27:08+02:00'' = Some 1762464428
   \<and> parse_started_at sample_lib ''2025-11-06T21:27:08Z'' = Some 1762464428
   \<and> ''2025-11-06T21:27:08'' \<noteq> []
   \<and> parse_started_at sample_lib (''2025-11-06T21:27:08'' @ ''Z'')
       = parse_started_at sample_lib ''2025-11-06T21:27:08''
   \<and> (\<exists>dt. fromisoformat sample_lib ''2025-11-06T21:27:08+02:00'' = Some dt
         \<and> utcoffset dt = Some 7200
         \<and> timestamp dt = 1762457228
         \<and> 1762464428 - timestamp dt = 7200)
   \<and> CHR ''.'' \<notin> set ''2025-11-06T21:27:08''
   \<and> CHR ''Z'' \<notin> set ''123456''
   \<and> length ''123456'' = 6
   \<and> parse_started_at sample_lib (''2025-11-06T21:27:08'' @ ''.'' @ ''123456'' @ ''789+02:00'')
       = parse_started_at sample_lib (''2025-11-06T21:27:08'' @ ''.'' @ ''123456'')
   \<and> parse_started_at sample_lib ''2025-11-06T21:27:08.123456789+02:00''
       = Some (1762464428123456 / 1000000)"
proof -
  have p: "parse_started_at sample_lib ''2025-11-06T21:27:08+02:00'' = Some 1762464428"
    by code_simp
  have q: "parse_started_at sample_lib ''2025-11-06T21:27:08Z'' = Some 1762464428"
    by code_simp
  have k: "keep_microseconds (rstrip_Z ''2025-11-06T21:27:08+02:00'') = ''2025-11-06T21:27:08+02:00''"
    by (simp add: keep_microseconds_def rstrip_Z_def)
  have f: "fromisoformat sample_lib ''2025-11-06T21:27:08+02:00''
      = Some \<lparr>year = 2025, month = 11, day = 6, hour = 21, minute = 27, second = 8,
              microsecond = 0, utcoffset = Some 7200\<rparr>"
    by code_simp
  have i: "timestamp \<lparr>year = 2025, month = 11, day = 6, hour = 21, minute = 27, second = 8,
              microsecond = 0, utcoffset = Some 7200\<rparr> = 1762457228"
    by code_simp
  have n: "''2025-11-06T21:27:08'' \<noteq> []" by simp
  note th = offset_discarded [of sample_lib "''2025-11-06T21:27:08+02:00''" 1762464428
      "[]" "[]" "[]", THEN conjunct1]
  note th2 = offset_discarded [of sample_lib "''2025-11-06T21:27:08''" 0
      "[]" "[]" "[]", THEN conjunct2, THEN conjunct1]
  from th p obtain dt where
    d: "fromisoformat sample_lib (keep_microseconds (rstrip_Z ''2025-11-06T21:27:08+02:00'')) = Some dt"
    and o: "\<forall>off. utcoffset dt = Some off \<longrightarrow> 1762464428 - timestamp dt = off"
    by blast
  from d k f have e: "dt = \<lparr>year = 2025, month = 11, day = 6, hour = 21, minute = 27,
      second = 8, microsecond = 0, utcoffset = Some 7200\<rparr>"
    by simp
  from e have u: "utcoffset dt = Some 7200" by simp
  with o have x: "1762464428 - timestamp dt = 7200" by blast
  from e i have y: "timestamp dt = 1762457228" by simp
  from d k have d': "fromisoformat sample_lib ''2025-11-06T21:27:08+02:00'' = Some dt" by simp
  from th2 n have z: "parse_started_at sample_lib (''2025-11-06T21:27:08'' @ ''Z'')
       = parse_started_at sample_lib ''2025-11-06T21:27:08''"
    by blast
  have c1: "CHR ''.'' \<notin> set ''2025-11-06T21:27:08''" by simp
  have c2: "CHR ''Z'' \<notin> set ''123456''" by simp
  have c3: "length ''123456'' = 6" by simp
  note th3 = offset_discarded [of sample_lib "[]" 0 "''2025-11-06T21:27:08''" "''123456''"
      "''789+02:00''", THEN conjunct2, THEN conjunct2]
  from th3 c1 c2 c3
  have v: "parse_started_at sample_lib (''2025-11-06T21:27:08'' @ ''.'' @ ''123456'' @ ''789+02:00'')
       = parse_started_at sample_lib (''2025-11-06T21:27:08'' @ ''.'' @ ''123456'')"
    by blast
  have r: "parse_started_at sample_lib ''2025-11-06T21:27:08.123456789+02:00''
       = Some (1762464428123456 / 1000000)"
    by code_simp
  from p q n z d' u y x c1 c2 c3 v r show ?thesis by blast
qed

section \<open>Properties of the poll loop\<close>

lemma main_step_resolution_fails:
  assumes "resolution_fails cfg t s"
  shows "main_step cfg t s
     = (\<lparr>client = None, backoff = min (backoff s * 2) 30, registry_of = registry_of s\<rparr>,
        min (backoff s) 30)"
  using assms
  by (auto simp: resolution_fails_def main_step_def try_block_def after_except_def isl_def
      split: py_exception.splits)

lemma main_step_connected:
  assumes "(client s = Some c \<and> b = backoff s)
     \<or> (client s = None
         \<and> outcome (create_docker_client (env_docker_host cfg) (default_socket_candidates cfg)
              (world t)) = Inr (c, u)
         \<and> b = 1)"
  shows "main_step cfg t s =
     (case scrape_once (lib_of cfg) (hostname t) (containers_list t c) (registry_of s) of
        Inl (DockerException m) \<Rightarrow>
          (\<lparr>client = None, backoff = min (b * 2) 30, registry_of = registry_of s\<rparr>, min b 30)
      | Inl (OtherException m) \<Rightarrow>
          (\<lparr>client = Some c, backoff = b, registry_of = registry_of s\<rparr>, interval cfg)
      | Inr (r, w) \<Rightarrow> (\<lparr>client = Some c, backoff = b, registry_of = r\<rparr>, interval cfg))"
  using assms
  by (auto simp: main_step_def try_block_def after_except_def
      split: py_exception.splits sum.splits prod.splits)

lemma step_shapes:
  "resolution_fails cfg t s
   \<or> (\<exists>c b u. (client s = Some c \<and> b = backoff s)
     \<or> (client s = None
         \<and> outcome (create_docker_client (env_docker_host cfg) (default_socket_candidates cfg)
              (world t)) = Inr (c, u)
         \<and> b = 1))"
  by (cases "client s";
      cases "outcome (create_docker_client (env_docker_host cfg) (default_socket_candidates cfg)
              (world t))")
    (auto simp: resolution_fails_def)

lemma backoff_inv_initial: "backoff_inv initial_state"
  by (simp add: backoff_inv_def initial_state_def)

lemma backoff_inv_step:
  assumes "backoff_inv s"
  shows "backoff_inv (fst (main_step cfg t s))"
proof (cases "resolution_fails cfg t s")
  case True
  with assms show ?thesis
    by (simp add: main_step_resolution_fails backoff_inv_def)
next
  case False
  with step_shapes [of cfg t s] obtain c b u where
    sh: "(client s = Some c \<and> b = backoff s)
     \<or> (client s = None
         \<and> outcome (create_docker_client (env_docker_host cfg) (default_socket_candidates cfg)
              (world t)) = Inr (c, u)
         \<and> b = 1)"
    by blast
  with assms have b: "b = 1"
    by (auto simp: backoff_inv_def)
  show ?thesis
    unfolding main_step_connected [OF sh] b
    by (auto simp: backoff_inv_def split: sum.splits py_exception.splits prod.splits)
qed

lemma backoff_inv_run_from: "backoff_inv s \<Longrightarrow> backoff_inv (main_run cfg s ts)"
  by (induction ts arbitrary: s) (simp_all add: backoff_inv_step)

lemma backoff_inv_run: "backoff_inv (main_run cfg initial_state ts)"
  by (simp add: backoff_inv_run_from backoff_inv_initial)

lemma sleep_floor_after_connection:
  assumes "backoff_inv s"
    and "client s \<noteq> None \<or> \<not> resolution_fails cfg t s"
    and "client (fst (main_step cfg t s)) = None"
  shows "snd (main_step cfg t s) = 1"
proof -
  from assms(2) have nf: "\<not> resolution_fails cfg t s"
    by (auto simp: resolution_fails_def)
  with step_shapes [of cfg t s] obtain c b u where
    sh: "(client s = Some c \<and> b = backoff s)
     \<or> (client s = None
         \<and> outcome (create_docker_client (env_docker_host cfg) (default_socket_candidates cfg)
              (world t)) = Inr (c, u)
         \<and> b = 1)"
    by blast
  with assms(1) have b: "b = 1"
    by (auto simp: backoff_inv_def)
  from assms(3) show ?thesis
    unfolding main_step_connected [OF sh] b
    by (auto split: sum.splits py_exception.splits prod.splits)
qed

lemma backoff_after_loss:
  assumes "backoff_inv s"
    and "client s \<noteq> None \<or> \<not> resolution_fails cfg t s"
    and "client (fst (main_step cfg t s)) = None"
  shows "backoff (fst (main_step cfg t s)) = 2"
proof -
  from assms(2) have nf: "\<not> resolution_fails cfg t s"
    by (auto simp: resolution_fails_def)
  with step_shapes [of cfg t s] obtain c b u where
    sh: "(client s = Some c \<and> b = backoff s)
     \<or> (client s = None
         \<and> outcome (create_docker_client (env_docker_host cfg) (default_socket_candidates cfg)
              (world t)) = Inr (c, u)
         \<and> b = 1)"
    by blast
  with assms(1) have b: "b = 1"
    by (auto simp: backoff_inv_def)
  from assms(3) show ?thesis
    unfolding main_step_connected [OF sh] b
    by (auto split: sum.splits py_exception.splits prod.splits)
qed

lemma sleep_bounds:
  assumes "backoff_inv s" and "client (fst (main_step cfg t s)) = None"
  shows "1 \<le> snd (main_step cfg t s) \<and> snd (main_step cfg t s) \<le> 30"
proof (cases "resolution_fails cfg t s")
  case True
  with assms(1) show ?thesis
    by (simp add: main_step_resolution_fails backoff_inv_def)
next
  case False
  with assms have "snd (main_step cfg t s) = 1"
    by (intro sleep_floor_after_connection) auto
  then show ?thesis by simp
qed

lemma lost_after_connection:
  "client (main_run sample_config initial_state [dead_tick, live_tick []]) \<noteq> None
   \<and> client (main_run sample_config initial_state [dead_tick, live_tick [], lost_tick]) = None"
  by code_simp

lemma fails_after_loss:
  "resolution_fails sample_config dead_tick
     (main_run sample_config initial_state [dead_tick, live_tick [], lost_tick])"
  by code_simp

lemma sleep_after_loss:
  "snd (main_step sample_config lost_tick
          (main_run sample_config initial_state [dead_tick, live_tick []])) = 1
   \<and> snd (main_step sample_config dead_tick
          (main_run sample_config initial_state [dead_tick, live_tick [], lost_tick])) = 2"
  by code_simp

text \<open>
  C8 (as stated).  The claim says that the failure that follows a successful connection
  sleeps the floor.  A resolution is only attempted once the client is lost, and the
  iteration that loses it has already slept the floor and doubled the backoff: the first
  failed resolution after a success sleeps 2, twice the floor.
\<close>

theorem resolution_failure_after_success_sleeps_two:
  "client (main_run sample_config initial_state [dead_tick, live_tick []]) \<noteq> None
   \<and> client (main_run sample_config initial_state [dead_tick, live_tick [], lost_tick]) = None
   \<and> resolution_fails sample_config dead_tick
        (main_run sample_config initial_state [dead_tick, live_tick [], lost_tick])
   \<and> snd (main_step sample_config dead_tick
          (main_run sample_config initial_state [dead_tick, live_tick [], lost_tick])) = 2"
  by (intro conjI lost_after_connection [THEN conjunct1] lost_after_connection [THEN conjunct2]
      fails_after_loss sleep_after_loss [THEN conjunct2])

text \<open>
  C8 (amended).  In every state the loop reaches, an iteration that ends without a client
  sleeps between the floor 1 and the ceiling 30; a failed resolution sleeps the current
  backoff and doubles it up to the ceiling, so that over consecutive failed resolutions
  the sleep never decreases; the backoff is at its floor whenever a client is held; the
  iteration that loses a client, or fails right after connecting, sleeps the floor and
  doubles the backoff, so the first failed resolution after a success sleeps twice the
  floor.
\<close>

theorem reconnect_backoff:
  "(client (fst (main_step cfg t1 (main_run cfg initial_state ts))) = None
      \<longrightarrow> 1 \<le> snd (main_step cfg t1 (main_run cfg initial_state ts))
        \<and> snd (main_step cfg t1 (main_run cfg initial_state ts)) \<le> 30)
   \<and> (resolution_fails cfg t1 (main_run cfg initial_state ts)
      \<longrightarrow> client (fst (main_step cfg t1 (main_run cfg initial_state ts))) = None
        \<and> snd (main_step cfg t1 (main_run cfg initial_state ts))
            = backoff (main_run cfg initial_state ts)
        \<and> backoff (fst (main_step cfg t1 (main_run cfg initial_state ts)))
            = min (2 * backoff (main_run cfg initial_state ts)) 30)
   \<and> (resolution_fails cfg t1 (main_run cfg initial_state ts)
        \<and> resolution_fails cfg t2 (fst (main_step cfg t1 (main_run cfg initial_state ts)))
      \<longrightarrow> snd (main_step cfg t1 (main_run cfg initial_state ts))
            \<le> snd (main_step cfg t2 (fst (main_step cfg t1 (main_run cfg initial_state ts))))
        \<and> snd (main_step cfg t2 (fst (main_step cfg t1 (main_run cfg initial_state ts))))
            = min (2 * snd (main_step cfg t1 (main_run cfg initial_state ts))) 30)
   \<and> (client (main_run cfg initial_state ts) \<noteq> None
      \<longrightarrow> backoff (main_run cfg initial_state ts) = 1)
   \<and> ((client (main_run cfg initial_state ts) \<noteq> None
         \<or> \<not> resolution_fails cfg t1 (main_run cfg initial_state ts))
        \<and> client (fst (main_step cfg t1 (main_run cfg initial_state ts))) = None
      \<longrightarrow> snd (main_step cfg t1 (main_run cfg initial_state ts)) = 1)
   \<and> ((client (main_run cfg initial_state ts) \<noteq> None
         \<or> \<not> resolution_fails cfg t1 (main_run cfg initial_state ts))
        \<and> client (fst (main_step cfg t1 (main_run cfg initial_state ts))) = None
        \<and> resolution_fails cfg t2 (fst (main_step cfg t1 (main_run cfg initial_state ts)))
      \<longrightarrow> snd (main_step cfg t2 (fst (main_step cfg t1 (main_run cfg initial_state ts)))) = 2)"
proof -
  define s where "s = main_run cfg initial_state ts"
  define s1 where "s1 = fst (main_step cfg t1 s)"
  have inv: "backoff_inv s"
    unfolding s_def by (rule backoff_inv_run)
  have inv1: "backoff_inv s1"
    unfolding s1_def using inv by (rule backoff_inv_step)
  have A: "client s1 = None \<longrightarrow> 1 \<le> snd (main_step cfg t1 s) \<and> snd (main_step cfg t1 s) \<le> 30"
    unfolding s1_def using sleep_bounds [OF inv] by blast
  have B: "resolution_fails cfg t1 s \<longrightarrow> client s1 = None
        \<and> snd (main_step cfg t1 s) = backoff s \<and> backoff s1 = min (2 * backoff s) 30"
    unfolding s1_def using inv
    by (auto simp: main_step_resolution_fails backoff_inv_def mult.commute)
  have B1: "resolution_fails cfg t2 s1 \<longrightarrow> snd (main_step cfg t2 s1) = backoff s1"
    using inv1 by (auto simp: main_step_resolution_fails backoff_inv_def)
  have C: "resolution_fails cfg t1 s \<and> resolution_fails cfg t2 s1
      \<longrightarrow> snd (main_step cfg t1 s) \<le> snd (main_step cfg t2 s1)
        \<and> snd (main_step cfg t2 s1) = min (2 * snd (main_step cfg t1 s)) 30"
    using B B1 inv by (auto simp: backoff_inv_def)
  have D: "client s \<noteq> None \<longrightarrow> backoff s = 1"
    using inv by (simp add: backoff_inv_def)
  have E: "(client s \<noteq> None \<or> \<not> resolution_fails cfg t1 s) \<and> client s1 = None
      \<longrightarrow> snd (main_step cfg t1 s) = 1"
    unfolding s1_def using sleep_floor_after_connection [OF inv] by blast
  have L: "(client s \<noteq> None \<or> \<not> resolution_fails cfg t1 s) \<and> client s1 = None
      \<longrightarrow> backoff s1 = 2"
    unfolding s1_def using backoff_after_loss [OF inv] by blast
  have F: "(client s \<noteq> None \<or> \<not> resolution_fails cfg t1 s) \<and> client s1 = None
        \<and> resolution_fails cfg t2 s1
      \<longrightarrow> snd (main_step cfg t2 s1) = 2"
    using L B1 by auto
  from A B C D E F show ?thesis
    unfolding s1_def s_def by blast
qed

section \<open>Properties of the series registry\<close>

lemma publish_warnings:
  "publish host f (st\<lparr>warnings := w\<rparr>) = (publish host f st)\<lparr>warnings := w\<rparr>"
  by (simp add: publish_def Let_def)

lemma foldl_publish_warnings:
  "foldl (\<lambda>st f. publish host f st) (st\<lparr>warnings := w\<rparr>) fs
     = (foldl (\<lambda>st f. publish host f st) st fs)\<lparr>warnings := w\<rparr>"
  by (induction fs arbitrary: st) (simp_all add: publish_warnings)

lemma warnings_publish: "warnings (publish host f st) = warnings st"
  by (simp add: publish_def Let_def)

lemma warnings_foldl_publish:
  "warnings (foldl (\<lambda>st f. publish host f st) st fs) = warnings st"
  by (induction fs arbitrary: st) (simp_all add: warnings_publish)

lemma derived_Cons_Inl:
  "derive lib c = Inl e \<Longrightarrow> derived_facts lib (c # cs) = derived_facts lib cs
     \<and> derived_warnings lib (c # cs) = warn_line (best_known_name c) e # derived_warnings lib cs
     \<and> scrape_container lib host st c = st\<lparr>warnings := warnings st @ [warn_line (best_known_name c) e]\<rparr>"
  by (simp add: derived_facts_def derived_warnings_def scrape_container_def)

lemma derived_Cons_Inr:
  "derive lib c = Inr f \<Longrightarrow> derived_facts lib (c # cs) = f # derived_facts lib cs
     \<and> derived_warnings lib (c # cs) = derived_warnings lib cs
     \<and> scrape_container lib host st c = publish host f st"
  by (simp add: derived_facts_def derived_warnings_def scrape_container_def)

lemma derived_Nil: "derived_facts lib [] = [] \<and> derived_warnings lib [] = []"
  by (simp add: derived_facts_def derived_warnings_def)

lemma scrape_loop_from:
  "foldl (scrape_container lib host) st cs
     = (foldl (\<lambda>st f. publish host f st) st (derived_facts lib cs))
         \<lparr>warnings := warnings st @ derived_warnings lib cs\<rparr>"
proof (induction cs arbitrary: st)
  case Nil
  then show ?case by (simp add: derived_Nil)
next
  case (Cons c cs)
  show ?case
  proof (cases "derive lib c")
    case (Inl e)
    note d = derived_Cons_Inl [OF Inl, of cs host st]
    have "foldl (scrape_container lib host) st (c # cs)
        = foldl (scrape_container lib host)
            (st\<lparr>warnings := warnings st @ [warn_line (best_known_name c) e]\<rparr>) cs"
      by (simp only: foldl_Cons d)
    also have "\<dots> = (foldl (\<lambda>st f. publish host f st)
            (st\<lparr>warnings := warnings st @ [warn_line (best_known_name c) e]\<rparr>) (derived_facts lib cs))
         \<lparr>warnings := (warnings st @ [warn_line (best_known_name c) e]) @ derived_warnings lib cs\<rparr>"
      by (subst Cons.IH) simp
    also have "\<dots> = (foldl (\<lambda>st f. publish host f st) st (derived_facts lib (c # cs)))
         \<lparr>warnings := warnings st @ derived_warnings lib (c # cs)\<rparr>"
      by (simp add: d foldl_publish_warnings)
    finally show ?thesis .
  next
    case (Inr f)
    note d = derived_Cons_Inr [OF Inr, of cs host st]
    have "foldl (scrape_container lib host) st (c # cs)
        = foldl (scrape_container lib host) (publish host f st) cs"
      by (simp only: foldl_Cons d)
    also have "\<dots> = (foldl (\<lambda>st f. publish host f st) (publish host f st) (derived_facts lib cs))
         \<lparr>warnings := warnings (publish host f st) @ derived_warnings lib cs\<rparr>"
      by (rule Cons.IH)
    also have "\<dots> = (foldl (\<lambda>st f. publish host f st) st (derived_facts lib (c # cs)))
         \<lparr>warnings := warnings st @ derived_warnings lib (c # cs)\<rparr>"
      by (simp add: d warnings_publish)
    finally show ?thesis .
  qed
qed

lemma set_one_hot_g_status:
  "g_status (set_one_hot r l sv) k
     = (if k \<in> status_rows l then Some (if snd (snd (snd (snd k))) = sv then 1 else 0)
        else g_status r k)"
  by (cases l) (auto simp: set_one_hot_def status_rows_def statuses_def)

lemma set_one_hot_other:
  "g_health (set_one_hot r l sv) = g_health r"
  "g_running (set_one_hot r l sv) = g_running r"
  "g_restart (set_one_hot r l sv) = g_restart r"
  "g_started_at (set_one_hot r l sv) = g_started_at r"
  "last_h (set_one_hot r l sv) = last_h r"
  "last_s (set_one_hot r l sv) = last_s r \<union> status_rows l"
  "last_rn (set_one_hot r l sv) = last_rn r"
  "last_rc (set_one_hot r l sv) = last_rc r"
  "last_sa (set_one_hot r l sv) = last_sa r"
  by (cases l; simp add: set_one_hot_def)+

lemma publish_fields:
  "g_health (reg (publish host f st)) = (g_health (reg st))(labels_of host f \<mapsto> num f)"
  "g_running (reg (publish host f st)) = (g_running (reg st))(labels_of host f \<mapsto> running f)"
  "g_restart (reg (publish host f st)) = (g_restart (reg st))(labels_of host f \<mapsto> restart_count f)"
  "g_started_at (reg (publish host f st)) = (g_started_at (reg st))(labels_of host f \<mapsto> started_at f)"
  "g_status (reg (publish host f st)) k
     = (if k \<in> status_rows (labels_of host f)
        then Some (if snd (snd (snd (snd k))) = status f then 1 else 0)
        else g_status (reg st) k)"
  "last_h (reg (publish host f st)) = last_h (reg st)"
  "last_s (reg (publish host f st)) = last_s (reg st) \<union> status_rows (labels_of host f)"
  "last_rn (reg (publish host f st)) = last_rn (reg st)"
  "last_rc (reg (publish host f st)) = last_rc (reg st)"
  "last_sa (reg (publish host f st)) = last_sa (reg st)"
  "now_h (publish host f st) = insert (labels_of host f) (now_h st)"
  "now_s (publish host f st) = now_s st \<union> status_rows (labels_of host f)"
  "now_rn (publish host f st) = insert (labels_of host f) (now_rn st)"
  "now_rc (publish host f st) = insert (labels_of host f) (now_rc st)"
  "now_sa (publish host f st) = insert (labels_of host f) (now_sa st)"
  by (simp_all add: publish_def Let_def set_one_hot_other set_one_hot_g_status)

lemma status_rows_iff:
  "k \<in> status_rows l \<longleftrightarrow> row_identity k = l \<and> row_category k \<in> set statuses"
  by (cases l; cases k) (auto simp: status_rows_def row_identity_def row_category_def statuses_def)

lemma row_of_status_row:
  "row_identity (status_row l s) = l" "row_category (status_row l s) = s"
  by (cases l; simp add: status_row_def row_identity_def row_category_def)+

lemma snd4_category: "snd (snd (snd (snd k))) = row_category k"
  by (cases k) (simp add: row_category_def)

lemma foldl_publish_snoc:
  "foldl (\<lambda>st f. publish host f st) st (fs @ [f])
     = publish host f (foldl (\<lambda>st f. publish host f st) st fs)"
  by simp

lemma dom_g_status_publish:
  "dom (g_status (reg (publish host f st)))
     = dom (g_status (reg st)) \<union> status_rows (labels_of host f)"
  by (auto simp: dom_def publish_fields split: if_splits)

lemma now_h_loop:
  "now_h (foldl (\<lambda>st f. publish host f st) st fs) = now_h st \<union> labels_of host ` set fs"
  by (induction fs arbitrary: st) (auto simp: publish_fields(11))

lemma now_rn_loop:
  "now_rn (foldl (\<lambda>st f. publish host f st) st fs) = now_rn st \<union> labels_of host ` set fs"
  by (induction fs arbitrary: st) (auto simp: publish_fields(13))

lemma now_rc_loop:
  "now_rc (foldl (\<lambda>st f. publish host f st) st fs) = now_rc st \<union> labels_of host ` set fs"
  by (induction fs arbitrary: st) (auto simp: publish_fields(14))

lemma now_sa_loop:
  "now_sa (foldl (\<lambda>st f. publish host f st) st fs) = now_sa st \<union> labels_of host ` set fs"
  by (induction fs arbitrary: st) (auto simp: publish_fields(15))

lemma now_s_loop:
  "now_s (foldl (\<lambda>st f. publish host f st) st fs) = now_s st \<union> (\<Union>l \<in> labels_of host ` set fs. status_rows l)"
  by (induction fs arbitrary: st) (auto simp: publish_fields(12))

lemma last_h_loop:
  "last_h (reg (foldl (\<lambda>st f. publish host f st) st fs)) = last_h (reg st)"
  by (induction fs arbitrary: st) (auto simp: publish_fields(6))

lemma last_rn_loop:
  "last_rn (reg (foldl (\<lambda>st f. publish host f st) st fs)) = last_rn (reg st)"
  by (induction fs arbitrary: st) (auto simp: publish_fields(8))

lemma last_rc_loop:
  "last_rc (reg (foldl (\<lambda>st f. publish host f st) st fs)) = last_rc (reg st)"
  by (induction fs arbitrary: st) (auto simp: publish_fields(9))

lemma last_sa_loop:
  "last_sa (reg (foldl (\<lambda>st f. publish host f st) st fs)) = last_sa (reg st)"
  by (induction fs arbitrary: st) (auto simp: publish_fields(10))

lemma last_s_loop:
  "last_s (reg (foldl (\<lambda>st f. publish host f st) st fs))
     = last_s (reg st) \<union> (\<Union>l \<in> labels_of host ` set fs. status_rows l)"
  by (induction fs arbitrary: st) (auto simp: publish_fields(7))

lemma dom_g_health_loop:
  "dom (g_health (reg (foldl (\<lambda>st f. publish host f st) st fs)))
     = dom (g_health (reg st)) \<union> labels_of host ` set fs"
  by (induction fs arbitrary: st) (auto simp: publish_fields(1))

lemma dom_g_running_loop:
  "dom (g_running (reg (foldl (\<lambda>st f. publish host f st) st fs)))
     = dom (g_running (reg st)) \<union> labels_of host ` set fs"
  by (induction fs arbitrary: st) (auto simp: publish_fields(2))

lemma dom_g_restart_loop:
  "dom (g_restart (reg (foldl (\<lambda>st f. publish host f st) st fs)))
     = dom (g_restart (reg st)) \<union> labels_of host ` set fs"
  by (induction fs arbitrary: st) (auto simp: publish_fields(3))

lemma dom_g_started_at_loop:
  "dom (g_started_at (reg (foldl (\<lambda>st f. publish host f st) st fs)))
     = dom (g_started_at (reg st)) \<union> labels_of host ` set fs"
  by (induction fs arbitrary: st) (auto simp: publish_fields(4))

lemma dom_g_status_loop:
  "dom (g_status (reg (foldl (\<lambda>st f. publish host f st) st fs)))
     = dom (g_status (reg st)) \<union> (\<Union>l \<in> labels_of host ` set fs. status_rows l)"
  by (induction fs arbitrary: st) (auto simp: dom_g_status_publish)

lemma dom_remove_stale: "dom (remove_stale m last_set now_set) = dom m - (last_set - now_set)"
  by (auto simp: remove_stale_def dom_def split: if_splits)

lemma scrape_once_Inr:
  "scrape_once lib host (Inr cs) r
     = Inr (reconcile (scrape_loop lib host cs r), warnings (scrape_loop lib host cs r))"
  by (simp add: scrape_once_def Let_def)

lemma scrape_loop_eq:
  "scrape_loop lib host cs r
     = (foldl (\<lambda>st f. publish host f st)
          \<lparr>reg = r, now_h = {}, now_s = {}, now_rn = {}, now_rc = {}, now_sa = {}, warnings = []\<rparr>
          (derived_facts lib cs))
         \<lparr>warnings := derived_warnings lib cs\<rparr>"
  by (simp add: scrape_loop_def scrape_loop_from)

lemma warnings_scrape_loop: "warnings (scrape_loop lib host cs r) = derived_warnings lib cs"
  by (simp add: scrape_loop_eq)

lemma reconcile_warnings: "reconcile (st\<lparr>warnings := w\<rparr>) = reconcile st"
  by (simp add: reconcile_def)

lemma pass_dom_g_health:
  "dom (g_health (reconcile (scrape_loop lib host cs r)))
     = (dom (g_health r) \<union> derived_labels lib host cs) - (last_h r - derived_labels lib host cs)"
  by (simp add: scrape_loop_eq reconcile_def Let_def dom_remove_stale dom_g_health_loop
      now_h_loop last_h_loop derived_labels_def)

lemma pass_dom_g_running:
  "dom (g_running (reconcile (scrape_loop lib host cs r)))
     = (dom (g_running r) \<union> derived_labels lib host cs) - (last_rn r - derived_labels lib host cs)"
  by (simp add: scrape_loop_eq reconcile_def Let_def dom_remove_stale dom_g_running_loop
      now_rn_loop last_rn_loop derived_labels_def)

lemma pass_dom_g_restart:
  "dom (g_restart (reconcile (scrape_loop lib host cs r)))
     = (dom (g_restart r) \<union> derived_labels lib host cs) - (last_rc r - derived_labels lib host cs)"
  by (simp add: scrape_loop_eq reconcile_def Let_def dom_remove_stale dom_g_restart_loop
      now_rc_loop last_rc_loop derived_labels_def)

lemma pass_dom_g_started_at:
  "dom (g_started_at (reconcile (scrape_loop lib host cs r)))
     = (dom (g_started_at r) \<union> derived_labels lib host cs) - (last_sa r - derived_labels lib host cs)"
  by (simp add: scrape_loop_eq reconcile_def Let_def dom_remove_stale dom_g_started_at_loop
      now_sa_loop last_sa_loop derived_labels_def)

lemma pass_dom_g_status:
  "dom (g_status (reconcile (scrape_loop lib host cs r)))
     = (dom (g_status r) \<union> derived_status_labels lib host cs)
       - ((last_s r \<union> derived_status_labels lib host cs) - derived_status_labels lib host cs)"
  by (simp add: scrape_loop_eq reconcile_def Let_def dom_remove_stale dom_g_status_loop
      now_s_loop last_s_loop derived_labels_def derived_status_labels_def)

lemma pass_last:
  "last_h (reconcile (scrape_loop lib host cs r)) = derived_labels lib host cs"
  "last_rn (reconcile (scrape_loop lib host cs r)) = derived_labels lib host cs"
  "last_rc (reconcile (scrape_loop lib host cs r)) = derived_labels lib host cs"
  "last_sa (reconcile (scrape_loop lib host cs r)) = derived_labels lib host cs"
  "last_s (reconcile (scrape_loop lib host cs r)) = derived_status_labels lib host cs"
  by (simp_all add: scrape_loop_eq reconcile_def Let_def now_h_loop now_rn_loop now_rc_loop
      now_sa_loop now_s_loop derived_labels_def derived_status_labels_def)

lemma stale_algebra: "(A \<union> N) - (A - N) = N"
  by blast

lemma stale_algebra_status: "(A \<union> N) - ((A \<union> N) - N) = N"
  by blast

lemma pass_doms:
  assumes "registry_inv r"
  shows "dom (g_health (reconcile (scrape_loop lib host cs r))) = derived_labels lib host cs"
    and "dom (g_running (reconcile (scrape_loop lib host cs r))) = derived_labels lib host cs"
    and "dom (g_restart (reconcile (scrape_loop lib host cs r))) = derived_labels lib host cs"
    and "dom (g_started_at (reconcile (scrape_loop lib host cs r))) = derived_labels lib host cs"
    and "dom (g_status (reconcile (scrape_loop lib host cs r))) = derived_status_labels lib host cs"
proof -
  from assms have e: "dom (g_health r) = last_h r" "dom (g_running r) = last_rn r"
    "dom (g_restart r) = last_rc r" "dom (g_started_at r) = last_sa r"
    "dom (g_status r) = last_s r"
    by (simp_all add: registry_inv_def)
  show "dom (g_health (reconcile (scrape_loop lib host cs r))) = derived_labels lib host cs"
    by (simp only: pass_dom_g_health e stale_algebra)
  show "dom (g_running (reconcile (scrape_loop lib host cs r))) = derived_labels lib host cs"
    by (simp only: pass_dom_g_running e stale_algebra)
  show "dom (g_restart (reconcile (scrape_loop lib host cs r))) = derived_labels lib host cs"
    by (simp only: pass_dom_g_restart e stale_algebra)
  show "dom (g_started_at (reconcile (scrape_loop lib host cs r))) = derived_labels lib host cs"
    by (simp only: pass_dom_g_started_at e stale_algebra)
  show "dom (g_status (reconcile (scrape_loop lib host cs r))) = derived_status_labels lib host cs"
    by (simp only: pass_dom_g_status e stale_algebra_status)
qed

lemma registry_inv_pass:
  "registry_inv r \<Longrightarrow> registry_inv (reconcile (scrape_loop lib host cs r))"
  by (simp add: registry_inv_def [of "reconcile (scrape_loop lib host cs r)"] pass_doms pass_last)

lemma registry_inv_empty: "registry_inv empty_registry"
  by (simp add: registry_inv_def empty_registry_def)

lemma scrape_once_cases:
  "(\<exists>ex. listing = Inl ex \<and> scrape_once lib host listing r = Inl ex)
   \<or> (\<exists>cs. listing = Inr cs \<and> scrape_once lib host listing r
        = Inr (reconcile (scrape_loop lib host cs r), derived_warnings lib cs))"
  by (cases listing) (simp_all add: scrape_once_def Let_def warnings_scrape_loop)

lemma registry_inv_scrape_once:
  "registry_inv r \<Longrightarrow> scrape_once lib host listing r = Inr (r', w) \<Longrightarrow> registry_inv r'"
  using scrape_once_cases [of listing lib host r] by (auto simp: registry_inv_pass)

lemma registry_inv_step:
  assumes "registry_inv (registry_of s)"
  shows "registry_inv (registry_of (fst (main_step cfg t s)))"
proof (cases "resolution_fails cfg t s")
  case True
  with assms show ?thesis
    by (simp add: main_step_resolution_fails)
next
  case False
  with step_shapes [of cfg t s] obtain c b u where
    sh: "(client s = Some c \<and> b = backoff s)
     \<or> (client s = None
         \<and> outcome (create_docker_client (env_docker_host cfg) (default_socket_candidates cfg)
              (world t)) = Inr (c, u)
         \<and> b = 1)"
    by blast
  show ?thesis
  proof (cases "scrape_once (lib_of cfg) (hostname t) (containers_list t c) (registry_of s)")
    case (Inl ex)
    with assms show ?thesis
      unfolding main_step_connected [OF sh]
      by (cases ex) simp_all
  next
    case (Inr p)
    obtain r' w where p: "p = (r', w)" by (cases p)
    from assms Inr p have "registry_inv r'"
      by (auto intro: registry_inv_scrape_once)
    with Inr p show ?thesis
      unfolding main_step_connected [OF sh] by simp
  qed
qed

lemma registry_inv_run_from:
  "registry_inv (registry_of s) \<Longrightarrow> registry_inv (registry_of (main_run cfg s ts))"
  by (induction ts arbitrary: s) (simp_all add: registry_inv_step)

lemma registry_inv_run: "registry_inv (registry_of (main_run cfg initial_state ts))"
  by (rule registry_inv_run_from) (simp add: initial_state_def registry_inv_empty)

lemma derive_Inr_health:
  assumes "derive lib c = Inr f"
  shows "health_of (attr_get (state_of c) ''Health'') = Inr (num f, status f)"
  using assms by (rule derive_Inr)

lemma derived_facts_mem:
  "f \<in> set (derived_facts lib cs) \<longleftrightarrow> (\<exists>c \<in> set cs. derive lib c = Inr f)"
proof
  assume "f \<in> set (derived_facts lib cs)"
  then obtain c where "c \<in> set cs" "f \<in> set (case derive lib c of Inl e \<Rightarrow> [] | Inr f \<Rightarrow> [f])"
    by (auto simp: derived_facts_def)
  then have "c \<in> set cs \<and> derive lib c = Inr f"
    by (cases "derive lib c") auto
  then show "\<exists>c \<in> set cs. derive lib c = Inr f" by blast
next
  assume "\<exists>c \<in> set cs. derive lib c = Inr f"
  then show "f \<in> set (derived_facts lib cs)"
    by (force simp: derived_facts_def)
qed

lemma derived_warnings_mem:
  "c \<in> set cs \<Longrightarrow> derive lib c = Inl e \<Longrightarrow> warn_line (best_known_name c) e \<in> set (derived_warnings lib cs)"
  by (force simp: derived_warnings_def split: sum.splits)

lemma derived_facts_status:
  "f \<in> set (derived_facts lib cs) \<Longrightarrow> status f \<in> set statuses"
  by (auto simp: derived_facts_mem dest!: derive_Inr_health health_of_status)

lemma last_status_snoc:
  "last_status host (fs @ [f]) l
     = (if labels_of host f = l then Some (status f) else last_status host fs l)"
  by (simp add: last_status_def)

lemma last_status_Some:
  "l \<in> labels_of host ` set fs
   \<Longrightarrow> \<exists>f \<in> set fs. labels_of host f = l \<and> last_status host fs l = Some (status f)"
proof (induction fs rule: rev_induct)
  case Nil
  then show ?case by simp
next
  case (snoc f fs)
  show ?case
  proof (cases "labels_of host f = l")
    case True
    then show ?thesis by (auto simp: last_status_snoc)
  next
    case False
    with snoc.prems have "l \<in> labels_of host ` set fs" by auto
    with snoc.IH obtain g where "g \<in> set fs" "labels_of host g = l"
      "last_status host fs l = Some (status g)"
      by blast
    with False show ?thesis by (auto simp: last_status_snoc)
  qed
qed

lemma status_row_mem:
  "status_row l s \<in> status_rows l' \<longleftrightarrow> l = l' \<and> s \<in> set statuses"
  by (auto simp: status_rows_iff row_of_status_row)

lemma one_hot_loop:
  "last_status host fs l = Some sv \<Longrightarrow> s \<in> set statuses
   \<Longrightarrow> g_status (reg (foldl (\<lambda>st f. publish host f st) st fs)) (status_row l s)
       = Some (if s = sv then 1 else 0)"
proof (induction fs arbitrary: sv rule: rev_induct)
  case Nil
  then show ?case by (simp add: last_status_def)
next
  case (snoc f fs)
  show ?case
  proof (cases "labels_of host f = l")
    case True
    with snoc.prems show ?thesis
      by (simp add: last_status_snoc publish_fields(5) status_row_mem snd4_category
          row_of_status_row)
  next
    case False
    with snoc.prems have "last_status host fs l = Some sv"
      by (simp add: last_status_snoc)
    from snoc.IH [OF this snoc.prems(2)] False show ?thesis
      by (simp add: publish_fields(5) status_row_mem)
  qed
qed

lemma one_hot_pass:
  assumes "last_status host (derived_facts lib cs) l = Some sv" and "s \<in> set statuses"
    and "l \<in> derived_labels lib host cs"
  shows "g_status (reconcile (scrape_loop lib host cs r)) (status_row l s)
       = Some (if s = sv then 1 else 0)"
proof -
  from assms(2,3) have "status_row l s \<in> derived_status_labels lib host cs"
    by (auto simp: derived_status_labels_def status_row_mem)
  then have "status_row l s \<in> now_s (scrape_loop lib host cs r)"
    by (simp add: scrape_loop_eq now_s_loop derived_status_labels_def derived_labels_def)
  then have "g_status (reconcile (scrape_loop lib host cs r)) (status_row l s)
      = g_status (reg (scrape_loop lib host cs r)) (status_row l s)"
    by (simp add: reconcile_def Let_def remove_stale_def)
  also have "\<dots> = Some (if s = sv then 1 else 0)"
    using one_hot_loop [OF assms(1,2)] by (simp add: scrape_loop_eq)
  finally show ?thesis .
qed

lemma one_hot_sum:
  assumes "sv \<in> set statuses"
    and "\<forall>s \<in> set statuses. m (status_row l s) = Some (if s = sv then 1 else 0)"
  shows "sum_list (map (row_value m l) statuses) = 1"
    and "length (filter (\<lambda>s. m (status_row l s) = Some 1) statuses) = 1"
  using assms by (auto simp: statuses_def row_value_def)

lemma try_block_completes:
  assumes "try_block cfg t s = (cl, b, r', None)"
  shows "\<exists>c cs. cl = Some c \<and> containers_list t c = Inr cs
           \<and> registry_of (fst (main_step cfg t s)) = r'
           \<and> scrape_once (lib_of cfg) (hostname t) (Inr cs) (registry_of s)
               = Inr (r', derived_warnings (lib_of cfg) cs)"
proof (cases "resolution_fails cfg t s")
  case True
  with assms show ?thesis
    by (auto simp: resolution_fails_def try_block_def isl_def)
next
  case False
  with step_shapes [of cfg t s] obtain c b0 u where
    sh: "(client s = Some c \<and> b0 = backoff s)
     \<or> (client s = None
         \<and> outcome (create_docker_client (env_docker_host cfg) (default_socket_candidates cfg)
              (world t)) = Inr (c, u)
         \<and> b0 = 1)"
    by blast
  from sh assms have
    tb: "(case scrape_once (lib_of cfg) (hostname t) (containers_list t c) (registry_of s) of
             Inl ex \<Rightarrow> (Some c, b0, registry_of s, Some ex)
           | Inr (r, warns) \<Rightarrow> (Some c, b0, r, None)) = (cl, b, r', None)"
    by (auto simp: try_block_def)
  from scrape_once_cases [of "containers_list t c" "lib_of cfg" "hostname t" "registry_of s"]
  show ?thesis
  proof
    assume "\<exists>ex. containers_list t c = Inl ex
      \<and> scrape_once (lib_of cfg) (hostname t) (containers_list t c) (registry_of s) = Inl ex"
    with tb show ?thesis by auto
  next
    assume "\<exists>cs. containers_list t c = Inr cs
      \<and> scrape_once (lib_of cfg) (hostname t) (containers_list t c) (registry_of s)
        = Inr (reconcile (scrape_loop (lib_of cfg) (hostname t) cs (registry_of s)),
               derived_warnings (lib_of cfg) cs)"
    then obtain cs where l: "containers_list t c = Inr cs"
      and so: "scrape_once (lib_of cfg) (hostname t) (containers_list t c) (registry_of s)
        = Inr (reconcile (scrape_loop (lib_of cfg) (hostname t) cs (registry_of s)),
               derived_warnings (lib_of cfg) cs)"
      by blast
    from tb so have e: "cl = Some c"
      "r' = reconcile (scrape_loop (lib_of cfg) (hostname t) cs (registry_of s))"
      by simp_all
    have "registry_of (fst (main_step cfg t s)) = r'"
      unfolding main_step_connected [OF sh] so e by simp
    with e l so show ?thesis by simp
  qed
qed


text \<open>
  C1.  In every state the loop reaches, a pass that completes leaves each of the four
  identity-keyed gauges with exactly the label tuples derived from the containers of the
  pass whose processing succeeds, and the status gauge with exactly their four rows
  each: tuples of the previous pass that are not derived again are removed, at the
  granularity of the five-tuple for the status gauge.  A \<open>try\<close> block that ends without
  an exception is such a pass, and its registry is the registry of the next state.
\<close>

theorem published_sets_match:
  "(scrape_once (lib_of cfg) host (Inr cs) (registry_of (main_run cfg initial_state ts))
      = Inr (r', w) \<longrightarrow>
      dom (g_health r') = derived_labels (lib_of cfg) host cs
    \<and> dom (g_running r') = derived_labels (lib_of cfg) host cs
    \<and> dom (g_restart r') = derived_labels (lib_of cfg) host cs
    \<and> dom (g_started_at r') = derived_labels (lib_of cfg) host cs
    \<and> dom (g_status r') = derived_status_labels (lib_of cfg) host cs)
   \<and> (try_block cfg t (main_run cfg initial_state ts) = (cl, b, r', None) \<longrightarrow>
        (\<exists>c cs. cl = Some c \<and> containers_list t c = Inr cs
           \<and> registry_of (fst (main_step cfg t (main_run cfg initial_state ts))) = r'
           \<and> scrape_once (lib_of cfg) (hostname t) (Inr cs)
                (registry_of (main_run cfg initial_state ts))
               = Inr (r', derived_warnings (lib_of cfg) cs)))"
proof (intro conjI impI)
  assume a: "scrape_once (lib_of cfg) host (Inr cs) (registry_of (main_run cfg initial_state ts))
      = Inr (r', w)"
  then have r': "r' = reconcile (scrape_loop (lib_of cfg) host cs
      (registry_of (main_run cfg initial_state ts)))"
    by (simp add: scrape_once_Inr)
  have inv: "registry_inv (registry_of (main_run cfg initial_state ts))"
    by (rule registry_inv_run)
  show "dom (g_health r') = derived_labels (lib_of cfg) host cs"
    unfolding r' using inv by (rule pass_doms)
  show "dom (g_running r') = derived_labels (lib_of cfg) host cs"
    unfolding r' using inv by (rule pass_doms)
  show "dom (g_restart r') = derived_labels (lib_of cfg) host cs"
    unfolding r' using inv by (rule pass_doms)
  show "dom (g_started_at r') = derived_labels (lib_of cfg) host cs"
    unfolding r' using inv by (rule pass_doms)
  show "dom (g_status r') = derived_status_labels (lib_of cfg) host cs"
    unfolding r' using inv by (rule pass_doms)
next
  assume "try_block cfg t (main_run cfg initial_state ts) = (cl, b, r', None)"
  then show "\<exists>c cs. cl = Some c \<and> containers_list t c = Inr cs
           \<and> registry_of (fst (main_step cfg t (main_run cfg initial_state ts))) = r'
           \<and> scrape_once (lib_of cfg) (hostname t) (Inr cs)
                (registry_of (main_run cfg initial_state ts))
               = Inr (r', derived_warnings (lib_of cfg) cs)"
    by (rule try_block_completes)
qed


text \<open>
  C3.  After a pass, for every container of the pass whose processing succeeds, the four
  rows of the status gauge for its identity are published, the row of one category (that
  of the last container processed with this identity) holds 1 and the three others hold
  0, and the four values sum to 1.
\<close>

theorem one_hot_status:
  assumes "scrape_once lib host (Inr cs) r = Inr (r', w)"
    and "f \<in> set (derived_facts lib cs)"
  shows "\<exists>sv \<in> set statuses.
           last_status host (derived_facts lib cs) (labels_of host f) = Some sv
         \<and> (\<forall>s \<in> set statuses.
              g_status r' (status_row (labels_of host f) s) = Some (if s = sv then 1 else 0))
         \<and> sum_list (map (row_value (g_status r') (labels_of host f)) statuses) = 1
         \<and> length (filter (\<lambda>s. g_status r' (status_row (labels_of host f) s) = Some 1)
              statuses) = 1"
proof -
  from assms(1) have r': "r' = reconcile (scrape_loop lib host cs r)"
    by (simp add: scrape_once_Inr)
  from assms(2) have l: "labels_of host f \<in> derived_labels lib host cs"
    by (simp add: derived_labels_def)
  then obtain g where g: "g \<in> set (derived_facts lib cs)"
    and ls: "last_status host (derived_facts lib cs) (labels_of host f) = Some (status g)"
    using last_status_Some [of "labels_of host f" host "derived_facts lib cs"]
    by (auto simp: derived_labels_def)
  from g have sv: "status g \<in> set statuses"
    by (rule derived_facts_status)
  have rows: "\<forall>s \<in> set statuses.
      g_status r' (status_row (labels_of host f) s) = Some (if s = status g then 1 else 0)"
    unfolding r' using one_hot_pass [OF ls _ l] by blast
  from one_hot_sum [OF sv rows] sv ls rows show ?thesis
    by blast
qed


lemma derived_facts_filter:
  "derived_facts lib (filter (succeeds lib) cs) = derived_facts lib cs"
  by (induction cs) (auto simp: derived_facts_def succeeds_def split: sum.splits)

lemma reconcile_scrape_loop:
  "reconcile (scrape_loop lib host cs r)
     = reconcile (foldl (\<lambda>st f. publish host f st)
          \<lparr>reg = r, now_h = {}, now_s = {}, now_rn = {}, now_rc = {}, now_sa = {}, warnings = []\<rparr>
          (derived_facts lib cs))"
  by (simp only: scrape_loop_eq reconcile_warnings)

lemma reconcile_filter:
  "reconcile (scrape_loop lib host (filter (succeeds lib) cs) r)
     = reconcile (scrape_loop lib host cs r)"
  by (simp only: reconcile_scrape_loop derived_facts_filter)


text \<open>
  C9.  A pass over a listed set of containers never raises: its registry is the one the
  pass would produce without the containers whose processing raises; for each of those
  the line \<open>[warn] container NAME: MESSAGE\<close> is logged, where NAME is the name of the
  container, or \<open>?\<close> when the name cannot be read, and MESSAGE is the text of the
  exception; every container whose processing succeeds is published wherever it stands
  in the list; and the loop keeps its client and sleeps the scrape interval.
\<close>

theorem container_failure_isolated:
  "scrape_once lib host (Inr cs) r
     = Inr (reconcile (scrape_loop lib host (filter (succeeds lib) cs) r),
            derived_warnings lib cs)
   \<and> derived_warnings lib cs
       = concat (map (\<lambda>c. case derive lib c of
                   Inl e \<Rightarrow>
                     [''[warn] container '' @ (case name c of None \<Rightarrow> ''?'' | Some nm \<Rightarrow> nm)
                        @ '': '' @ error_text e]
                 | Inr f \<Rightarrow> []) cs)
   \<and> (\<forall>c \<in> set cs. \<forall>e nm. derive lib c = Inl e \<and> name c = Some nm
        \<longrightarrow> ''[warn] container '' @ nm @ '': '' @ error_text e \<in> set (derived_warnings lib cs))
   \<and> (\<forall>c \<in> set cs. \<forall>e. derive lib c = Inl e \<and> name c = None
        \<longrightarrow> ''[warn] container ?: '' @ error_text e \<in> set (derived_warnings lib cs))
   \<and> (\<forall>c \<in> set cs. \<forall>f. derive lib c = Inr f
        \<longrightarrow> g_health (reconcile (scrape_loop lib host cs r)) (labels_of host f) \<noteq> None)
   \<and> (client s = Some cl \<and> containers_list t cl = Inr cs \<longrightarrow>
        client (fst (main_step cfg t s)) = Some cl
      \<and> backoff (fst (main_step cfg t s)) = backoff s
      \<and> snd (main_step cfg t s) = interval cfg
      \<and> registry_of (fst (main_step cfg t s))
         = reconcile (scrape_loop (lib_of cfg) (hostname t) (filter (succeeds (lib_of cfg)) cs)
             (registry_of s)))
   \<and> error_text (Raised m) = m
   \<and> error_text (AttributeError ty a)
       = [CHR 0x27] @ ty @ [CHR 0x27] @ '' object has no attribute '' @ [CHR 0x27] @ a @ [CHR 0x27]"
proof (intro conjI ballI allI impI)
  show "scrape_once lib host (Inr cs) r
     = Inr (reconcile (scrape_loop lib host (filter (succeeds lib) cs) r),
            derived_warnings lib cs)"
    by (simp add: scrape_once_Inr warnings_scrape_loop reconcile_filter)
  show "derived_warnings lib cs
       = concat (map (\<lambda>c. case derive lib c of
                   Inl e \<Rightarrow>
                     [''[warn] container '' @ (case name c of None \<Rightarrow> ''?'' | Some nm \<Rightarrow> nm)
                        @ '': '' @ error_text e]
                 | Inr f \<Rightarrow> []) cs)"
    by (simp only: derived_warnings_def warn_line_def best_known_name_def)
  show "error_text (Raised m) = m"
    by (simp add: error_text_def)
  show "error_text (AttributeError ty a)
       = [CHR 0x27] @ ty @ [CHR 0x27] @ '' object has no attribute '' @ [CHR 0x27] @ a @ [CHR 0x27]"
    by (simp add: error_text_def)
next
  fix c e nm
  assume c: "c \<in> set cs" and d: "derive lib c = Inl e \<and> name c = Some nm"
  from d have b: "best_known_name c = nm"
    by (simp add: best_known_name_def)
  from c d have "warn_line (best_known_name c) e \<in> set (derived_warnings lib cs)"
    by (intro derived_warnings_mem) simp_all
  then show "''[warn] container '' @ nm @ '': '' @ error_text e \<in> set (derived_warnings lib cs)"
    by (simp only: b warn_line_def)
next
  fix c e
  assume c: "c \<in> set cs" and d: "derive lib c = Inl e \<and> name c = None"
  from d have b: "best_known_name c = ''?''"
    by (simp add: best_known_name_def)
  from c d have "warn_line (best_known_name c) e \<in> set (derived_warnings lib cs)"
    by (intro derived_warnings_mem) simp_all
  then have "''[warn] container '' @ ''?'' @ '': '' @ error_text e \<in> set (derived_warnings lib cs)"
    by (simp only: b warn_line_def)
  then show "''[warn] container ?: '' @ error_text e \<in> set (derived_warnings lib cs)"
    by simp
next
  fix c f
  assume "c \<in> set cs" "derive lib c = Inr f"
  then have "f \<in> set (derived_facts lib cs)"
    unfolding derived_facts_mem by blast
  then have "labels_of host f \<in> derived_labels lib host cs"
    by (simp add: derived_labels_def)
  then have "labels_of host f \<in> dom (g_health (reconcile (scrape_loop lib host cs r)))"
    unfolding pass_dom_g_health by blast
  then show "g_health (reconcile (scrape_loop lib host cs r)) (labels_of host f) \<noteq> None"
    by blast
next
  assume a: "client s = Some cl \<and> containers_list t cl = Inr cs"
  then have sh: "(client s = Some cl \<and> backoff s = backoff s)
     \<or> (client s = None
         \<and> outcome (create_docker_client (env_docker_host cfg) (default_socket_candidates cfg)
              (world t)) = Inr (cl, [])
         \<and> backoff s = 1)"
    by simp
  from a have so: "scrape_once (lib_of cfg) (hostname t) (containers_list t cl) (registry_of s)
      = Inr (reconcile (scrape_loop (lib_of cfg) (hostname t) (filter (succeeds (lib_of cfg)) cs)
             (registry_of s)), derived_warnings (lib_of cfg) cs)"
    by (simp add: scrape_once_Inr warnings_scrape_loop reconcile_filter)
  show "client (fst (main_step cfg t s)) = Some cl"
    unfolding main_step_connected [OF sh] so by simp
  show "backoff (fst (main_step cfg t s)) = backoff s"
    unfolding main_step_connected [OF sh] so by simp
  show "snd (main_step cfg t s) = interval cfg"
    unfolding main_step_connected [OF sh] so by simp
  show "registry_of (fst (main_step cfg t s))
         = reconcile (scrape_loop (lib_of cfg) (hostname t) (filter (succeeds (lib_of cfg)) cs)
             (registry_of s))"
    unfolding main_step_connected [OF sh] so by simp
qed

section \<open>The loop and the registry on sample runs\<close>

lemma backoff_after_two_failures:
  "backoff (main_run sample_config initial_state [dead_tick, dead_tick]) = 4"
  by code_simp

lemma dead_fails_1:
  "resolution_fails sample_config dead_tick (main_run sample_config initial_state [dead_tick, dead_tick])"
  by code_simp

lemma dead_fails_2:
  "resolution_fails sample_config dead_tick
     (fst (main_step sample_config dead_tick
        (main_run sample_config initial_state [dead_tick, dead_tick])))"
  by code_simp

lemma connected_after_live:
  "client (main_run sample_config initial_state [dead_tick, live_tick []]) \<noteq> None"
  by code_simp

lemma lost_after_live:
  "client (fst (main_step sample_config lost_tick
     (main_run sample_config initial_state [dead_tick, live_tick []]))) = None"
  by code_simp

lemma dead_fails_after_loss:
  "resolution_fails sample_config dead_tick
     (fst (main_step sample_config lost_tick
        (main_run sample_config initial_state [dead_tick, live_tick []])))"
  by code_simp

theorem reconnect_backoff_witness:
  "resolution_fails sample_config dead_tick
     (main_run sample_config initial_state [dead_tick, dead_tick])
   \<and> resolution_fails sample_config dead_tick
       (fst (main_step sample_config dead_tick
          (main_run sample_config initial_state [dead_tick, dead_tick])))
   \<and> snd (main_step sample_config dead_tick
          (main_run sample_config initial_state [dead_tick, dead_tick])) = 4
   \<and> snd (main_step sample_config dead_tick
          (fst (main_step sample_config dead_tick
             (main_run sample_config initial_state [dead_tick, dead_tick])))) = 8
   \<and> client (main_run sample_config initial_state [dead_tick, live_tick []]) \<noteq> None
   \<and> backoff (main_run sample_config initial_state [dead_tick, live_tick []]) = 1
   \<and> client (fst (main_step sample_config lost_tick
        (main_run sample_config initial_state [dead_tick, live_tick []]))) = None
   \<and> snd (main_step sample_config lost_tick
        (main_run sample_config initial_state [dead_tick, live_tick []])) = 1
   \<and> resolution_fails sample_config dead_tick
       (fst (main_step sample_config lost_tick
          (main_run sample_config initial_state [dead_tick, live_tick []])))
   \<and> snd (main_step sample_config dead_tick
       (fst (main_step sample_config lost_tick
          (main_run sample_config initial_state [dead_tick, live_tick []])))) = 2"
proof -
  note th3 = reconnect_backoff [of sample_config lost_tick "[dead_tick, live_tick []]" dead_tick]
  note th1 = reconnect_backoff [of sample_config dead_tick "[dead_tick, dead_tick]" dead_tick]
  note th2 = reconnect_backoff [of sample_config lost_tick "[dead_tick, live_tick []]" lost_tick]
  from th1 dead_fails_1 have "snd (main_step sample_config dead_tick
          (main_run sample_config initial_state [dead_tick, dead_tick]))
      = backoff (main_run sample_config initial_state [dead_tick, dead_tick])"
    by blast
  then have a: "snd (main_step sample_config dead_tick
          (main_run sample_config initial_state [dead_tick, dead_tick])) = 4"
    by (simp only: backoff_after_two_failures)
  from th1 dead_fails_1 dead_fails_2 have "snd (main_step sample_config dead_tick
          (fst (main_step sample_config dead_tick
             (main_run sample_config initial_state [dead_tick, dead_tick]))))
      = min (2 * snd (main_step sample_config dead_tick
          (main_run sample_config initial_state [dead_tick, dead_tick]))) 30"
    by blast
  then have b: "snd (main_step sample_config dead_tick
          (fst (main_step sample_config dead_tick
             (main_run sample_config initial_state [dead_tick, dead_tick])))) = 8"
    by (simp only: a; simp)
  from th2 connected_after_live
  have c: "backoff (main_run sample_config initial_state [dead_tick, live_tick []]) = 1"
    by blast
  from th2 connected_after_live lost_after_live
  have d: "snd (main_step sample_config lost_tick
        (main_run sample_config initial_state [dead_tick, live_tick []])) = 1"
    by blast
  from th3 connected_after_live lost_after_live dead_fails_after_loss
  have e: "snd (main_step sample_config dead_tick
       (fst (main_step sample_config lost_tick
          (main_run sample_config initial_state [dead_tick, live_tick []])))) = 2"
    by blast
  show ?thesis
    by (intro conjI dead_fails_1 dead_fails_2 a b connected_after_live c lost_after_live d
        dead_fails_after_loss e)
qed

lemma derive_db_snapshot:
  "derive sample_lib db_snapshot
   = Inr \<lparr>f_name = ''db'', f_img = ''nginx:latest'', f_cid = ''0123456789ab'',
        num = 1 / 2, status = ''starting'', running = 1, restart_count = 0, started_at = 0\<rparr>"
  by code_simp

lemma derive_broken_snapshot:
  "derive sample_lib broken_snapshot = Inl (AttributeError ''str'' ''get'')"
  by code_simp

lemma derived_labels_sample:
  "derived_labels sample_lib ''host'' [healthy_snapshot, broken_snapshot]
     = {(''web'', ''nginx:latest'', ''0123456789ab'', ''host'')}"
  by (simp add: derived_labels_def derived_facts_def derive_healthy_snapshot
      derive_broken_snapshot labels_of_def)

lemma derived_status_labels_sample:
  "derived_status_labels sample_lib ''host'' [healthy_snapshot, broken_snapshot]
     = status_rows (''web'', ''nginx:latest'', ''0123456789ab'', ''host'')"
  by (simp add: derived_status_labels_def derived_labels_sample)

lemma live_outcome:
  "outcome (create_docker_client (env_docker_host sample_config)
      (default_socket_candidates sample_config) (world (live_tick cs)))
   = Inr ((), ''unix:///var/run/docker.sock'')"
  by (simp add: sample_config_def live_tick_def live_world_def create_docker_client_def
      candidate_eval try_base_def file_exists_for_unix_def liveness_def)

lemma try_block_first_live:
  "try_block sample_config (live_tick cs) initial_state
     = (Some (), 1, reconcile (scrape_loop sample_lib ''host'' cs empty_registry), None)"
  using live_outcome [of cs]
  by (simp add: try_block_def initial_state_def scrape_once_Inr live_tick_def sample_config_def)

lemma healthy_facts_mem:
  "\<lparr>f_name = ''web'', f_img = ''nginx:latest'', f_cid = ''0123456789ab'',
        num = 1, status = ''healthy'', running = 0, restart_count = 5,
        started_at = 1762464428123456 / 1000000\<rparr>
     \<in> set (derived_facts sample_lib [healthy_snapshot, db_snapshot])"
  by (simp add: derived_facts_def derive_healthy_snapshot derive_db_snapshot)

lemma last_status_sample:
  "last_status ''host'' (derived_facts sample_lib [healthy_snapshot, db_snapshot])
     (''web'', ''nginx:latest'', ''0123456789ab'', ''host'') = Some ''healthy''"
  by (simp add: derived_facts_def derive_healthy_snapshot derive_db_snapshot last_status_def
      labels_of_def)

theorem published_sets_match_witness:
  "scrape_once (lib_of sample_config) ''host'' (Inr [healthy_snapshot, broken_snapshot])
      (registry_of (main_run sample_config initial_state [live_tick [healthy_snapshot, db_snapshot]]))
     = Inr (reconcile (scrape_loop sample_lib ''host'' [healthy_snapshot, broken_snapshot]
              (registry_of (main_run sample_config initial_state
                 [live_tick [healthy_snapshot, db_snapshot]]))),
            derived_warnings sample_lib [healthy_snapshot, broken_snapshot])
   \<and> dom (g_health (reconcile (scrape_loop sample_lib ''host'' [healthy_snapshot, broken_snapshot]
              (registry_of (main_run sample_config initial_state
                 [live_tick [healthy_snapshot, db_snapshot]])))))
       = {(''web'', ''nginx:latest'', ''0123456789ab'', ''host'')}
   \<and> dom (g_status (reconcile (scrape_loop sample_lib ''host'' [healthy_snapshot, broken_snapshot]
              (registry_of (main_run sample_config initial_state
                 [live_tick [healthy_snapshot, db_snapshot]])))))
       = status_rows (''web'', ''nginx:latest'', ''0123456789ab'', ''host'')
   \<and> try_block sample_config (live_tick [healthy_snapshot, db_snapshot])
        (main_run sample_config initial_state [])
       = (Some (), 1,
          reconcile (scrape_loop sample_lib ''host'' [healthy_snapshot, db_snapshot] empty_registry),
          None)
   \<and> registry_of (fst (main_step sample_config (live_tick [healthy_snapshot, db_snapshot])
        (main_run sample_config initial_state [])))
       = reconcile (scrape_loop sample_lib ''host'' [healthy_snapshot, db_snapshot] empty_registry)"
proof -
  let ?R = "registry_of (main_run sample_config initial_state
      [live_tick [healthy_snapshot, db_snapshot]])"
  let ?R' = "reconcile (scrape_loop sample_lib ''host'' [healthy_snapshot, broken_snapshot] ?R)"
  let ?W = "derived_warnings sample_lib [healthy_snapshot, broken_snapshot]"
  let ?R1 = "reconcile (scrape_loop sample_lib ''host'' [healthy_snapshot, db_snapshot]
      empty_registry)"
  have l: "lib_of sample_config = sample_lib"
    by (simp add: sample_config_def)
  have p: "scrape_once (lib_of sample_config) ''host'' (Inr [healthy_snapshot, broken_snapshot]) ?R
      = Inr (?R', ?W)"
    by (simp only: l scrape_once_Inr warnings_scrape_loop)
  have q: "try_block sample_config (live_tick [healthy_snapshot, db_snapshot])
        (main_run sample_config initial_state []) = (Some (), 1, ?R1, None)"
    by (simp only: main_run.simps try_block_first_live)
  note th1 = published_sets_match [of sample_config "''host''"
      "[healthy_snapshot, broken_snapshot]" "[live_tick [healthy_snapshot, db_snapshot]]" ?R' ?W]
  note th2 = published_sets_match [of sample_config _ _ "[]" ?R1 _
      "live_tick [healthy_snapshot, db_snapshot]" "Some ()" 1]
  from th1 p have "dom (g_health ?R') = derived_labels (lib_of sample_config) ''host''
      [healthy_snapshot, broken_snapshot]"
    by blast
  then have a: "dom (g_health ?R') = {(''web'', ''nginx:latest'', ''0123456789ab'', ''host'')}"
    by (simp only: l derived_labels_sample)
  from th1 p have "dom (g_status ?R') = derived_status_labels (lib_of sample_config) ''host''
      [healthy_snapshot, broken_snapshot]"
    by blast
  then have b: "dom (g_status ?R')
      = status_rows (''web'', ''nginx:latest'', ''0123456789ab'', ''host'')"
    by (simp only: l derived_status_labels_sample)
  from th2 q have c: "registry_of (fst (main_step sample_config
      (live_tick [healthy_snapshot, db_snapshot]) (main_run sample_config initial_state []))) = ?R1"
    by blast
  from p a b q c show ?thesis by blast
qed

theorem one_hot_status_witness:
  "scrape_once sample_lib ''host'' (Inr [healthy_snapshot, db_snapshot]) empty_registry
     = Inr (reconcile (scrape_loop sample_lib ''host'' [healthy_snapshot, db_snapshot] empty_registry),
            derived_warnings sample_lib [healthy_snapshot, db_snapshot])
   \<and> \<lparr>f_name = ''web'', f_img = ''nginx:latest'', f_cid = ''0123456789ab'',
        num = 1, status = ''healthy'', running = 0, restart_count = 5,
        started_at = 1762464428123456 / 1000000\<rparr>
       \<in> set (derived_facts sample_lib [healthy_snapshot, db_snapshot])
   \<and> g_status (reconcile (scrape_loop sample_lib ''host'' [healthy_snapshot, db_snapshot] empty_registry))
        (''web'', ''nginx:latest'', ''0123456789ab'', ''host'', ''healthy'') = Some 1
   \<and> g_status (reconcile (scrape_loop sample_lib ''host'' [healthy_snapshot, db_snapshot] empty_registry))
        (''web'', ''nginx:latest'', ''0123456789ab'', ''host'', ''starting'') = Some 0
   \<and> g_status (reconcile (scrape_loop sample_lib ''host'' [healthy_snapshot, db_snapshot] empty_registry))
        (''web'', ''nginx:latest'', ''0123456789ab'', ''host'', ''unhealthy'') = Some 0
   \<and> g_status (reconcile (scrape_loop sample_lib ''host'' [healthy_snapshot, db_snapshot] empty_registry))
        (''web'', ''nginx:latest'', ''0123456789ab'', ''host'', ''none'') = Some 0
   \<and> sum_list (map (row_value
          (g_status (reconcile (scrape_loop sample_lib ''host'' [healthy_snapshot, db_snapshot]
             empty_registry)))
          (''web'', ''nginx:latest'', ''0123456789ab'', ''host'')) statuses) = 1"
proof -
  let ?F = "\<lparr>f_name = ''web'', f_img = ''nginx:latest'', f_cid = ''0123456789ab'',
        num = 1, status = ''healthy'', running = 0, restart_count = 5,
        started_at = 1762464428123456 / 1000000\<rparr>"
  let ?L = "(''web'', ''nginx:latest'', ''0123456789ab'', ''host'')"
  let ?R' = "reconcile (scrape_loop sample_lib ''host'' [healthy_snapshot, db_snapshot] empty_registry)"
  have p: "scrape_once sample_lib ''host'' (Inr [healthy_snapshot, db_snapshot]) empty_registry
     = Inr (?R', derived_warnings sample_lib [healthy_snapshot, db_snapshot])"
    by (simp only: scrape_once_Inr warnings_scrape_loop)
  have lf: "labels_of ''host'' ?F = ?L"
    by (simp add: labels_of_def)
  from one_hot_status [OF p healthy_facts_mem] obtain sv where
    ls: "last_status ''host'' (derived_facts sample_lib [healthy_snapshot, db_snapshot])
        (labels_of ''host'' ?F) = Some sv"
    and rows: "\<forall>s \<in> set statuses. g_status ?R' (status_row (labels_of ''host'' ?F) s)
        = Some (if s = sv then 1 else 0)"
    and sum: "sum_list (map (row_value (g_status ?R') (labels_of ''host'' ?F)) statuses) = 1"
    by blast
  from ls have sv: "sv = ''healthy''"
    by (simp only: lf last_status_sample) simp
  from rows have r: "\<forall>s \<in> set statuses. g_status ?R' (status_row ?L s)
        = Some (if s = ''healthy'' then 1 else 0)"
    by (simp only: lf sv)
  from r have r1: "g_status ?R' (status_row ?L ''healthy'') = Some 1"
    by (simp add: statuses_def)
  from r have r2: "g_status ?R' (status_row ?L ''starting'') = Some 0"
    by (simp add: statuses_def)
  from r have r3: "g_status ?R' (status_row ?L ''unhealthy'') = Some 0"
    by (simp add: statuses_def)
  from r have r4: "g_status ?R' (status_row ?L ''none'') = Some 0"
    by (simp add: statuses_def)
  from sum have s: "sum_list (map (row_value (g_status ?R') ?L) statuses) = 1"
    by (simp only: lf)
  from p healthy_facts_mem r1 r2 r3 r4 s show ?thesis
    by (simp only: status_row_def prod.case; blast)
qed

lemma healthy_labels:
  "labels_of ''host'' \<lparr>f_name = ''web'', f_img = ''nginx:latest'', f_cid = ''0123456789ab'',
        num = 1, status = ''healthy'', running = 0, restart_count = 5,
        started_at = 1762464428123456 / 1000000\<rparr>
     = (''web'', ''nginx:latest'', ''0123456789ab'', ''host'')"
  by (simp add: labels_of_def)

lemma derive_flaky_snapshot:
  "derive sample_lib flaky_snapshot = Inl (Raised ''500 Server Error'')"
  by code_simp

lemma derive_nameless_snapshot:
  "derive sample_lib nameless_snapshot = Inl (AttributeError ''Container'' ''name'')"
  by code_simp

theorem container_failure_isolated_witness:
  "flaky_snapshot \<in> set [flaky_snapshot, nameless_snapshot, healthy_snapshot]
   \<and> derive sample_lib flaky_snapshot = Inl (Raised ''500 Server Error'')
   \<and> name flaky_snapshot = Some ''flaky''
   \<and> ''[warn] container flaky: 500 Server Error''
       \<in> set (derived_warnings sample_lib [flaky_snapshot, nameless_snapshot, healthy_snapshot])
   \<and> nameless_snapshot \<in> set [flaky_snapshot, nameless_snapshot, healthy_snapshot]
   \<and> derive sample_lib nameless_snapshot = Inl (AttributeError ''Container'' ''name'')
   \<and> name nameless_snapshot = None
   \<and> ''[warn] container ?: '' @ [CHR 0x27] @ ''Container'' @ [CHR 0x27]
         @ '' object has no attribute '' @ [CHR 0x27] @ ''name'' @ [CHR 0x27]
       \<in> set (derived_warnings sample_lib [flaky_snapshot, nameless_snapshot, healthy_snapshot])
   \<and> healthy_snapshot \<in> set [flaky_snapshot, nameless_snapshot, healthy_snapshot]
   \<and> g_health (reconcile (scrape_loop sample_lib ''host''
          [flaky_snapshot, nameless_snapshot, healthy_snapshot] empty_registry))
        (''web'', ''nginx:latest'', ''0123456789ab'', ''host'') \<noteq> None
   \<and> client \<lparr>client = Some (), backoff = 1, registry_of = empty_registry\<rparr> = Some ()
   \<and> containers_list (live_tick [flaky_snapshot, nameless_snapshot, healthy_snapshot]) ()
       = Inr [flaky_snapshot, nameless_snapshot, healthy_snapshot]
   \<and> client (fst (main_step sample_config
        (live_tick [flaky_snapshot, nameless_snapshot, healthy_snapshot])
        \<lparr>client = Some (), backoff = 1, registry_of = empty_registry\<rparr>)) = Some ()
   \<and> snd (main_step sample_config
        (live_tick [flaky_snapshot, nameless_snapshot, healthy_snapshot])
        \<lparr>client = Some (), backoff = 1, registry_of = empty_registry\<rparr>) = 10"
proof -
  let ?cs = "[flaky_snapshot, nameless_snapshot, healthy_snapshot]"
  let ?s = "\<lparr>client = Some (), backoff = 1, registry_of = empty_registry\<rparr>"
  note th = container_failure_isolated [of sample_lib "''host''" ?cs empty_registry ?s "()"
      "live_tick ?cs" sample_config "''500 Server Error''" "''Container''" "''name''"]
  note named = th [THEN conjunct2, THEN conjunct2, THEN conjunct1]
  note unnamed = th [THEN conjunct2, THEN conjunct2, THEN conjunct2, THEN conjunct1]
  note published = th [THEN conjunct2, THEN conjunct2, THEN conjunct2, THEN conjunct2,
      THEN conjunct1]
  note kept = th [THEN conjunct2, THEN conjunct2, THEN conjunct2, THEN conjunct2,
      THEN conjunct2, THEN conjunct1]
  note raised = th [THEN conjunct2, THEN conjunct2, THEN conjunct2, THEN conjunct2,
      THEN conjunct2, THEN conjunct2, THEN conjunct1]
  note attr = th [THEN conjunct2, THEN conjunct2, THEN conjunct2, THEN conjunct2,
      THEN conjunct2, THEN conjunct2, THEN conjunct2]
  have m1: "flaky_snapshot \<in> set ?cs" by simp
  have m2: "nameless_snapshot \<in> set ?cs" by simp
  have m3: "healthy_snapshot \<in> set ?cs" by simp
  have n1: "name flaky_snapshot = Some ''flaky''"
    by (simp add: flaky_snapshot_def sample_container_def)
  have n2: "name nameless_snapshot = None"
    by (simp add: nameless_snapshot_def sample_container_def)
  have c: "client ?s = Some ()" by simp
  have l: "containers_list (live_tick ?cs) () = Inr ?cs"
    by (simp add: live_tick_def)
  have i: "interval sample_config = 10"
    by (simp add: sample_config_def)
  from named m1 derive_flaky_snapshot n1
  have "''[warn] container '' @ ''flaky'' @ '': '' @ error_text (Raised ''500 Server Error'')
      \<in> set (derived_warnings sample_lib ?cs)"
    by blast
  then have w1: "''[warn] container flaky: 500 Server Error''
      \<in> set (derived_warnings sample_lib ?cs)"
    by (simp only: raised) simp
  from unnamed m2 derive_nameless_snapshot n2
  have "''[warn] container ?: '' @ error_text (AttributeError ''Container'' ''name'')
      \<in> set (derived_warnings sample_lib ?cs)"
    by blast
  then have w2: "''[warn] container ?: '' @ [CHR 0x27] @ ''Container'' @ [CHR 0x27]
         @ '' object has no attribute '' @ [CHR 0x27] @ ''name'' @ [CHR 0x27]
      \<in> set (derived_warnings sample_lib ?cs)"
    by (simp only: attr)
  from published m3 derive_healthy_snapshot
  have "g_health (reconcile (scrape_loop sample_lib ''host'' ?cs empty_registry))
      (labels_of ''host'' \<lparr>f_name = ''web'', f_img = ''nginx:latest'', f_cid = ''0123456789ab'',
        num = 1, status = ''healthy'', running = 0, restart_count = 5,
        started_at = 1762464428123456 / 1000000\<rparr>) \<noteq> None"
    by blast
  then have g: "g_health (reconcile (scrape_loop sample_lib ''host'' ?cs empty_registry))
      (''web'', ''nginx:latest'', ''0123456789ab'', ''host'') \<noteq> None"
    unfolding healthy_labels .
  from kept c l have k: "client (fst (main_step sample_config (live_tick ?cs) ?s)) = Some ()"
    by blast
  from kept c l have "snd (main_step sample_config (live_tick ?cs) ?s) = interval sample_config"
    by blast
  then have sl: "snd (main_step sample_config (live_tick ?cs) ?s) = 10"
    by (simp only: i)
  show ?thesis
    by (intro conjI m1 derive_flaky_snapshot n1 w1 m2 derive_nameless_snapshot n2 w2 m3 g c l k sl)
qed

end
